theory Spec2Isabelle
  imports Complex_Main "HOL-Library.Monad_Syntax"
begin

section \<open>Numbers and sources of randomness\<close>

text \<open>
  The program computes with JavaScript numbers. They are modelled as reals (rounding is
  not modelled); the values a division by zero produces are adjoined in \<open>jsnum\<close>, the
  type of every number that the program obtains from the division by the batch size.

  \<open>Math.random\<close> is the process-wide, unseeded generator. Its future draws are an
  explicit argument, a list of reals, and every function that draws returns the unread
  rest; \<open>None\<close> says that the list ended before the function returned.
\<close>

datatype jsnum = Fin real | PosInf | NegInf | NaN

datatype task = Classification | Regression

datatype activation = Tanh | Relu

record point =
  px :: real
  py :: real
  pt :: real

record dataset =
  ds_name :: string
  ds_task :: task
  points :: "point list"

subsection \<open>Math utils (lines 60-71)\<close>

text \<open>\<^verbatim>\<open>while (u === 0) u = Math.random();\<close> starting from \<open>u = 0\<close>.\<close>

fun first_nonzero :: "real list \<Rightarrow> (real \<times> real list) option" where
  "first_nonzero [] = None"
| "first_nonzero (u # us) = (if u = 0 then first_nonzero us else Some (u, us))"

definition randn :: "real list \<Rightarrow> (real \<times> real list) option" where
  "randn us = do {
     (u, us1) \<leftarrow> first_nonzero us;
     (v, us2) \<leftarrow> first_nonzero us1;
     Some (sqrt (- 2 * ln u) * cos (2 * pi * v), us2)
   }"

text \<open>The operator \<^verbatim>\<open>%\<close> on integers: the result has the sign of the dividend.\<close>

definition js_rem :: "int \<Rightarrow> int \<Rightarrow> int" where
  "js_rem a b = (if a < 0 then - ((- a) mod \<bar>b\<bar>) else a mod \<bar>b\<bar>)"

text \<open>
  \<open>seededRandom seed\<close> is the initial value of the variable \<open>s\<close> that the returned
  closure captures; \<open>rng s\<close> is one call of the closure: the value returned and the new
  \<open>s\<close>.
\<close>

definition seededRandom :: "int \<Rightarrow> int" where
  "seededRandom seed =
     (let s = js_rem seed 2147483647 in if s \<le> 0 then s + 2147483646 else s)"

definition rng :: "int \<Rightarrow> real \<times> int" where
  "rng s = (let s' = js_rem (s * 16807) 2147483647 in (real_of_int s' / 2147483647, s'))"

text \<open>The first \<open>k\<close> values the closure returns.\<close>

fun rng_seq :: "int \<Rightarrow> nat \<Rightarrow> real list" where
  "rng_seq s 0 = []"
| "rng_seq s (Suc k) = (case rng s of (v, s') \<Rightarrow> v # rng_seq s' k)"

subsection \<open>Activations (lines 74-85)\<close>

fun act_f :: "activation \<Rightarrow> real \<Rightarrow> real" where
  "act_f Tanh v = tanh v"
| "act_f Relu v = (if v > 0 then v else 0)"

fun act_df :: "activation \<Rightarrow> real \<Rightarrow> real" where
  "act_df Tanh v = 1 - (tanh v)\<^sup>2"
| "act_df Relu v = (if v > 0 then 1 else 0)"

section \<open>Dataset factory (lines 90-209)\<close>

text \<open>
  Every generator is a \<^verbatim>\<open>for (let i = 0; i < n; i++)\<close> loop (or two) whose body pushes
  one point. \<open>for_push body [0..<n] st pts\<close> runs such a loop from the state \<open>st\<close> of the
  random sources, appending to \<open>pts\<close>. The count \<open>n\<close> is a natural number.
\<close>

fun for_push ::
  "(nat \<Rightarrow> 'st \<Rightarrow> (point \<times> 'st) option) \<Rightarrow> nat list \<Rightarrow> 'st \<Rightarrow> point list
     \<Rightarrow> (point list \<times> 'st) option" where
  "for_push body [] st pts = Some (pts, st)"
| "for_push body (i # ks) st pts =
     (case body i st of
        None \<Rightarrow> None
      | Some (p, st') \<Rightarrow> for_push body ks st' (pts @ [p]))"

definition moons_upper :: "nat \<Rightarrow> real \<Rightarrow> nat \<Rightarrow> int \<times> real list \<Rightarrow> (point \<times> int \<times> real list) option" where
  "moons_upper n noise i = (\<lambda>(s, us). do {
     let th = (real i / real n) * pi;
     let (r, s1) = rng s;
     let r1 = 1 + (r - 0.5) * noise * 2;
     (g1, us1) \<leftarrow> randn us;
     (g2, us2) \<leftarrow> randn us1;
     Some (\<lparr>px = r1 * cos th - 0.2 + g1 * noise * 0.15,
            py = r1 * sin th + 0.1 + g2 * noise * 0.15,
            pt = 0\<rparr>, s1, us2)
   })"

definition moons_lower :: "nat \<Rightarrow> real \<Rightarrow> nat \<Rightarrow> int \<times> real list \<Rightarrow> (point \<times> int \<times> real list) option" where
  "moons_lower n noise i = (\<lambda>(s, us). do {
     let th = (real i / real n) * pi;
     let (r, s1) = rng s;
     let r2 = 1 + (r - 0.5) * noise * 2;
     (g1, us1) \<leftarrow> randn us;
     (g2, us2) \<leftarrow> randn us1;
     Some (\<lparr>px = 1.0 + r2 * cos th + 0.2 + g1 * noise * 0.15,
            py = - r2 * sin th - 0.1 + g2 * noise * 0.15,
            pt = 1\<rparr>, s1, us2)
   })"

definition moons :: "nat \<Rightarrow> real \<Rightarrow> int \<Rightarrow> real list \<Rightarrow> (dataset \<times> real list) option" where
  "moons n noise seed us = do {
     (pts0, st0) \<leftarrow> for_push (moons_upper n noise) [0..<n] (seededRandom seed, us) [];
     (pts1, st1) \<leftarrow> for_push (moons_lower n noise) [0..<n] st0 pts0;
     Some (\<lparr>ds_name = ''Moons (classification)'', ds_task = Classification, points = pts1\<rparr>,
           snd st1)
   }"

definition circles_ring :: "real \<Rightarrow> real \<Rightarrow> nat \<Rightarrow> real \<Rightarrow> nat \<Rightarrow> real list \<Rightarrow> (point \<times> real list) option" where
  "circles_ring r0 lab n noise i = (\<lambda>us. do {
     let th = (2 * pi * real i) / real n;
     (g, us1) \<leftarrow> randn us;
     let r = r0 + g * noise;
     Some (\<lparr>px = r * cos th, py = r * sin th, pt = lab\<rparr>, us1)
   })"

text \<open>\<open>circles\<close> and \<open>spirals\<close> declare no seed parameter: a third argument is ignored.\<close>

definition circles :: "nat \<Rightarrow> real \<Rightarrow> real list \<Rightarrow> (dataset \<times> real list) option" where
  "circles n noise us = do {
     (pts0, us0) \<leftarrow> for_push (circles_ring 0.6 0 n noise) [0..<n] us [];
     (pts1, us1) \<leftarrow> for_push (circles_ring 1.3 1 n noise) [0..<n] us0 pts0;
     Some (\<lparr>ds_name = ''Concentric circles (classification)'', ds_task = Classification,
            points = pts1\<rparr>, us1)
   }"

definition xor_body :: "real \<Rightarrow> nat \<Rightarrow> int \<times> real list \<Rightarrow> (point \<times> int \<times> real list) option" where
  "xor_body noise i = (\<lambda>(s, us). do {
     let (r1, s1) = rng s;
     let x = (r1 * 2 - 1) * 2;
     let (r2, s2) = rng s1;
     let y = (r2 * 2 - 1) * 2;
     let t = (if (x > 0) \<noteq> (y > 0) then 1 else 0);
     (g1, us1) \<leftarrow> randn us;
     (g2, us2) \<leftarrow> randn us1;
     Some (\<lparr>px = x + g1 * noise, py = y + g2 * noise, pt = t\<rparr>, s2, us2)
   })"

definition xor_ds :: "nat \<Rightarrow> real \<Rightarrow> int \<Rightarrow> real list \<Rightarrow> (dataset \<times> real list) option" where
  "xor_ds n noise seed us = do {
     (pts, st) \<leftarrow> for_push (xor_body noise) [0..<n] (seededRandom seed, us) [];
     Some (\<lparr>ds_name = ''XOR checkerboard (classification)'', ds_task = Classification,
            points = pts\<rparr>, snd st)
   }"

definition spirals_arm0 :: "nat \<Rightarrow> real \<Rightarrow> nat \<Rightarrow> real list \<Rightarrow> (point \<times> real list) option" where
  "spirals_arm0 n noise i = (\<lambda>us. do {
     let t = (real i / real n) * 4 * pi;
     let r = 0.1 + t * 0.08;
     (g1, us1) \<leftarrow> randn us;
     (g2, us2) \<leftarrow> randn us1;
     Some (\<lparr>px = r * cos t + g1 * noise, py = r * sin t + g2 * noise, pt = 0\<rparr>, us2)
   })"

definition spirals_arm1 :: "nat \<Rightarrow> real \<Rightarrow> nat \<Rightarrow> real list \<Rightarrow> (point \<times> real list) option" where
  "spirals_arm1 n noise i = (\<lambda>us. do {
     let t = (real i / real n) * 4 * pi + pi;
     let r = 0.1 + (t - pi) * 0.08;
     (g1, us1) \<leftarrow> randn us;
     (g2, us2) \<leftarrow> randn us1;
     Some (\<lparr>px = r * cos t + g1 * noise, py = r * sin t + g2 * noise, pt = 1\<rparr>, us2)
   })"

definition spirals :: "nat \<Rightarrow> real \<Rightarrow> real list \<Rightarrow> (dataset \<times> real list) option" where
  "spirals n noise us = do {
     (pts0, us0) \<leftarrow> for_push (spirals_arm0 n noise) [0..<n] us [];
     (pts1, us1) \<leftarrow> for_push (spirals_arm1 n noise) [0..<n] us0 pts0;
     Some (\<lparr>ds_name = ''Two spirals (classification)'', ds_task = Classification,
            points = pts1\<rparr>, us1)
   }"

definition sinc_body :: "real \<Rightarrow> nat \<Rightarrow> int \<times> real list \<Rightarrow> (point \<times> int \<times> real list) option" where
  "sinc_body noise i = (\<lambda>(s, us). do {
     let (r1, s1) = rng s;
     let x = (r1 * 2 - 1) * 3;
     let (r2, s2) = rng s1;
     let y = (r2 * 2 - 1) * 3;
     let r = sqrt (x * x + y * y) + 1 / 1000000;
     (g, us1) \<leftarrow> randn us;
     Some (\<lparr>px = x, py = y, pt = sin r / r + g * noise\<rparr>, s2, us1)
   })"

definition sinc :: "nat \<Rightarrow> real \<Rightarrow> int \<Rightarrow> real list \<Rightarrow> (dataset \<times> real list) option" where
  "sinc n noise seed us = do {
     (pts, st) \<leftarrow> for_push (sinc_body noise) [0..<n] (seededRandom seed, us) [];
     Some (\<lparr>ds_name = ''Sinc ripple (regression)'', ds_task = Regression, points = pts\<rparr>,
           snd st)
   }"

definition plane_body :: "real \<Rightarrow> nat \<Rightarrow> int \<times> real list \<Rightarrow> (point \<times> int \<times> real list) option" where
  "plane_body noise i = (\<lambda>(s, us). do {
     let (r1, s1) = rng s;
     let x = (r1 * 2 - 1) * 2;
     let (r2, s2) = rng s1;
     let y = (r2 * 2 - 1) * 2;
     (g, us1) \<leftarrow> randn us;
     Some (\<lparr>px = x, py = y, pt = 0.6 * x - 0.3 * y + 0.2 + g * noise\<rparr>, s2, us1)
   })"

definition plane :: "nat \<Rightarrow> real \<Rightarrow> int \<Rightarrow> real list \<Rightarrow> (dataset \<times> real list) option" where
  "plane n noise seed us = do {
     (pts, st) \<leftarrow> for_push (plane_body noise) [0..<n] (seededRandom seed, us) [];
     Some (\<lparr>ds_name = ''Noisy plane (regression)'', ds_task = Regression, points = pts\<rparr>,
           snd st)
   }"

text \<open>How many more non-zero draws of \<open>Math.random\<close> a list holds.\<close>

definition nonzeros :: "real list \<Rightarrow> nat" where
  "nonzeros us = length (filter (\<lambda>u. u \<noteq> 0) us)"

section \<open>The network engine (lines 214-347)\<close>

text \<open>
  The hook \<open>useMLP\<close> closes over the hidden widths \<open>H\<close>, the parameter stacks \<open>W\<close> and
  \<open>B\<close> held in component state, the hidden activation and the task: one record. The
  widths are natural numbers. The stored parameters are reals; \<open>step\<close> returns the stacks
  it writes as \<open>jsnum\<close>s, since they come out of the division by the batch size.
\<close>

type_synonym vec = "real list"
type_synonym mat = "real list list"

record engine =
  H :: "nat list"
  W :: "mat list"
  B :: "vec list"
  actFun :: activation
  task :: task

record trace =
  tr_a :: "vec list"
  tr_z :: "vec list"
  yhat :: real

record grads =
  gW :: "jsnum list list list"
  gB :: "jsnum list list"
  loss :: jsnum

text \<open>\<^verbatim>\<open>const sizes = [2, ...h, 1]\<close>\<close>

definition layer_sizes :: "nat list \<Rightarrow> nat list" where
  "layer_sizes h = 2 # h @ [1]"

subsection \<open>Initialisation (lines 224-244)\<close>

text \<open>\<^verbatim>\<open>Array.from({ length: k }, () => randn() * c)\<close>\<close>

fun draw_row :: "nat \<Rightarrow> real \<Rightarrow> real list \<Rightarrow> (vec \<times> real list) option" where
  "draw_row 0 c us = Some ([], us)"
| "draw_row (Suc k) c us = do {
     (g, us1) \<leftarrow> randn us;
     (row, us2) \<leftarrow> draw_row k c us1;
     Some (g * c # row, us2)
   }"

text \<open>\<^verbatim>\<open>Array.from({ length: m }, () => Array.from({ length: k }, () => randn() * c))\<close>\<close>

fun draw_rows :: "nat \<Rightarrow> nat \<Rightarrow> real \<Rightarrow> real list \<Rightarrow> (mat \<times> real list) option" where
  "draw_rows 0 k c us = Some ([], us)"
| "draw_rows (Suc m) k c us = do {
     (row, us1) \<leftarrow> draw_row k c us;
     (rows, us2) \<leftarrow> draw_rows m k c us1;
     Some (row # rows, us2)
   }"

text \<open>
  The \<open>map\<close> over the layer indices \<open>l\<close>. For \<open>inS = 0\<close> the program's \<open>scale\<close> is
  \<open>Infinity\<close>, and no entry is drawn with it.
\<close>

fun init_layers :: "nat list \<Rightarrow> nat list \<Rightarrow> real list \<Rightarrow> (mat list \<times> real list) option" where
  "init_layers szs [] us = Some ([], us)"
| "init_layers szs (l # ls) us = do {
     let inS = szs ! l;
     let outS = szs ! (l + 1);
     let scale = 1 / sqrt (real inS);
     (m, us1) \<leftarrow> draw_rows inS outS scale us;
     (ms, us2) \<leftarrow> init_layers szs ls us1;
     Some (m # ms, us2)
   }"

definition initWeights :: "nat list \<Rightarrow> real list \<Rightarrow> (mat list \<times> real list) option" where
  "initWeights h us = (let szs = layer_sizes h in init_layers szs [0..<length szs - 1] us)"

fun init_bias_layers :: "nat list \<Rightarrow> real list \<Rightarrow> (vec list \<times> real list) option" where
  "init_bias_layers [] us = Some ([], us)"
| "init_bias_layers (outS # rest) us = do {
     (b, us1) \<leftarrow> draw_row outS 0.05 us;
     (bs, us2) \<leftarrow> init_bias_layers rest us1;
     Some (b # bs, us2)
   }"

definition initBiases :: "nat list \<Rightarrow> real list \<Rightarrow> (vec list \<times> real list) option" where
  "initBiases h us = init_bias_layers (tl (layer_sizes h)) us"

text \<open>The two \<open>useState\<close> initialisers of the first render, in their order.\<close>

definition useMLP :: "nat list \<Rightarrow> activation \<Rightarrow> task \<Rightarrow> real list \<Rightarrow> (engine \<times> real list) option" where
  "useMLP layers act tsk us = do {
     (w, us1) \<leftarrow> initWeights layers us;
     (b, us2) \<leftarrow> initBiases layers us1;
     Some (\<lparr>H = layers, W = w, B = b, actFun = act, task = tsk\<rparr>, us2)
   }"

text \<open>
  \<open>reinit\<close> replaces \<open>W\<close> and \<open>B\<close>. \<open>H\<close> is the prop \<open>layers\<close>: it is the caller that passes
  the new widths with the next render.
\<close>

definition reinit :: "engine \<Rightarrow> nat list \<Rightarrow> real list \<Rightarrow> (engine \<times> real list) option" where
  "reinit e newLayers us = do {
     (w, us1) \<leftarrow> initWeights newLayers us;
     (b, us2) \<leftarrow> initBiases newLayers us1;
     Some (e\<lparr>W := w, B := b\<rparr>, us2)
   }"

subsection \<open>Forward pass (lines 246-273)\<close>

text \<open>The vector \<open>zl\<close> of layer \<open>l\<close>, from the activations \<open>al = a[l]\<close>.\<close>

definition layer_z :: "engine \<Rightarrow> nat \<Rightarrow> vec \<Rightarrow> vec" where
  "layer_z e l al =
     (let inS = layer_sizes (H e) ! l; outS = layer_sizes (H e) ! (l + 1)
      in map (\<lambda>j. fold (\<lambda>i s. s + al ! i * W e ! l ! i ! j) [0..<inS] (B e ! l ! j)) [0..<outS])"

definition out_act :: "task \<Rightarrow> real \<Rightarrow> real" where
  "out_act tsk v = (case tsk of Classification \<Rightarrow> 1 / (1 + exp (- v)) | Regression \<Rightarrow> v)"

definition forward_layer :: "engine \<Rightarrow> nat \<Rightarrow> vec list \<times> vec list \<Rightarrow> vec list \<times> vec list" where
  "forward_layer e l = (\<lambda>(a, z).
     let zl = layer_z e l (a ! l);
         isOut = (l = length (layer_sizes (H e)) - 2)
     in (a @ [if isOut then map (out_act (task e)) zl else map (act_f (actFun e)) zl],
         z @ [zl]))"

definition forward :: "engine \<Rightarrow> real \<Rightarrow> real \<Rightarrow> trace" where
  "forward e x y =
     (let (a, z) = fold (forward_layer e) [0..<length (layer_sizes (H e)) - 1] ([[x, y]], [])
      in \<lparr>tr_a = a, tr_z = z, yhat = a ! (length a - 1) ! 0\<rparr>)"

definition predictBatch :: "engine \<Rightarrow> (real \<times> real) list \<Rightarrow> real list" where
  "predictBatch e XY = map (\<lambda>(x, y). yhat (forward e x y)) XY"

subsection \<open>Batch gradients (lines 275-330)\<close>

text \<open>The vector \<open>dl\<close> of the hidden layer \<open>l\<close>, from \<open>deltas[l + 1]\<close>.\<close>

definition hidden_delta :: "engine \<Rightarrow> vec list \<Rightarrow> nat \<Rightarrow> vec list \<Rightarrow> vec" where
  "hidden_delta e z l deltas =
     (let outS = layer_sizes (H e) ! (l + 1); nextS = layer_sizes (H e) ! (l + 2)
      in map (\<lambda>i. fold (\<lambda>j s. s + deltas ! (l + 1) ! j * W e ! (l + 1) ! i ! j) [0..<nextS] 0
                   * act_df (actFun e) (z ! l ! i)) [0..<outS])"

text \<open>
  \<^verbatim>\<open>for (let l = sizes.length - 3; l >= 0; l--)\<close>: the counter of the model is \<open>l + 1\<close>,
  started at \<open>sizes.length - 2\<close>.
\<close>

fun backward_loop :: "engine \<Rightarrow> vec list \<Rightarrow> nat \<Rightarrow> vec list \<Rightarrow> vec list" where
  "backward_loop e z 0 deltas = deltas"
| "backward_loop e z (Suc l) deltas =
     backward_loop e z l (deltas[l := hidden_delta e z l deltas])"

text \<open>
  The accumulation runs over \<open>l\<close>, \<open>j\<close> and \<open>i\<close>, each \<^verbatim>\<open>+=\<close> a list update. (Where the
  program would write past the end of an array, the update of the model does nothing;
  with parameters of the shape of \<open>sizes\<close> no write is past the end.)
\<close>

definition accumulate ::
  "engine \<Rightarrow> vec list \<Rightarrow> vec list \<Rightarrow> mat list \<times> vec list \<Rightarrow> mat list \<times> vec list" where
  "accumulate e a deltas =
     fold (\<lambda>l.
       let inS = layer_sizes (H e) ! l; outS = layer_sizes (H e) ! (l + 1)
       in fold (\<lambda>j (accW, accB).
            let accB' = accB[l := (accB ! l)[j := accB ! l ! j + deltas ! l ! j]]
            in (fold (\<lambda>i acc.
                  acc[l := (acc ! l)[i := (acc ! l ! i)[j := acc ! l ! i ! j
                                                         + a ! l ! i * deltas ! l ! j]]])
                  [0..<inS] accW, accB')) [0..<outS])
       [0..<length (layer_sizes (H e)) - 1]"

text \<open>The body of the loop over the samples \<open>n\<close>.\<close>

definition sample_grads ::
  "engine \<Rightarrow> (real \<times> real) list \<Rightarrow> real list \<Rightarrow> nat
     \<Rightarrow> mat list \<times> vec list \<times> real \<Rightarrow> mat list \<times> vec list \<times> real" where
  "sample_grads e XY yTrue n = (\<lambda>(accW, accB, lossAcc).
     let (x, y) = XY ! n;
         t = yTrue ! n;
         tr = forward e x y;
         (lossAcc', deltaL) =
           (case task e of
              Classification \<Rightarrow>
                (lossAcc + - (t * ln (yhat tr + 1 / 10 ^ 8)
                              + (1 - t) * ln (1 - yhat tr + 1 / 10 ^ 8)),
                 [yhat tr - t])
            | Regression \<Rightarrow>
                (let er = yhat tr - t in (lossAcc + 0.5 * er * er, [er])));
         deltas0 = replicate (length (layer_sizes (H e)) - 1) [];
         deltas1 = deltas0[length deltas0 - 1 := deltaL];
         deltas = backward_loop e (tr_z tr) (length (layer_sizes (H e)) - 2) deltas1;
         (accW', accB') = accumulate e (tr_a tr) deltas (accW, accB)
     in (accW', accB', lossAcc'))"

text \<open>\<^verbatim>\<open>v / n\<close> for the batch size \<open>n\<close>.\<close>

definition js_div :: "real \<Rightarrow> nat \<Rightarrow> jsnum" where
  "js_div v n =
     (if n = 0 then (if v = 0 then NaN else if v > 0 then PosInf else NegInf)
      else Fin (v / real n))"

definition computeBatchGrads :: "engine \<Rightarrow> (real \<times> real) list \<Rightarrow> real list \<Rightarrow> grads" where
  "computeBatchGrads e XY yTrue =
     (let accW0 = map (map (map (\<lambda>_. 0))) (W e);
          accB0 = map (map (\<lambda>_. 0)) (B e);
          (accW, accB, lossAcc) =
             fold (sample_grads e XY yTrue) [0..<length XY] (accW0, accB0, 0);
          n = length XY
      in \<lparr>gW = map (map (map (\<lambda>v. js_div v n))) accW,
          gB = map (map (\<lambda>v. js_div v n)) accB,
          loss = js_div lossAcc n\<rparr>)"

subsection \<open>Update step (lines 332-344)\<close>

fun js_mul :: "real \<Rightarrow> jsnum \<Rightarrow> jsnum" where
  "js_mul c (Fin v) = Fin (c * v)"
| "js_mul c PosInf = (if c = 0 then NaN else if c > 0 then PosInf else NegInf)"
| "js_mul c NegInf = (if c = 0 then NaN else if c > 0 then NegInf else PosInf)"
| "js_mul c NaN = NaN"

fun js_sub :: "real \<Rightarrow> jsnum \<Rightarrow> jsnum" where
  "js_sub w (Fin v) = Fin (w - v)"
| "js_sub w PosInf = NegInf"
| "js_sub w NegInf = PosInf"
| "js_sub w NaN = NaN"

text \<open>\<^verbatim>\<open>xs.map((x, i) => f(i, x))\<close>\<close>

definition mapi :: "(nat \<Rightarrow> 'a \<Rightarrow> 'b) \<Rightarrow> 'a list \<Rightarrow> 'b list" where
  "mapi f xs = map (\<lambda>i. f i (xs ! i)) [0..<length xs]"

text \<open>
  \<open>step\<close> returns the loss; the two functional updates \<open>setW\<close> and \<open>setB\<close> are applied to
  the state the gradients were computed from, and the stacks they store are returned with
  the loss.
\<close>

definition step ::
  "engine \<Rightarrow> (real \<times> real) list \<Rightarrow> real list \<Rightarrow> real
     \<Rightarrow> jsnum list list list \<times> jsnum list list \<times> jsnum" where
  "step e XY yTrue lr =
     (let g = computeBatchGrads e XY yTrue;
          scale = lr;
          W' = mapi (\<lambda>l layer. mapi (\<lambda>i row.
                 mapi (\<lambda>j w. js_sub w (js_mul scale (gW g ! l ! i ! j))) row) layer) (W e);
          B' = mapi (\<lambda>l arr. mapi (\<lambda>j bv. js_sub bv (js_mul scale (gB g ! l ! j))) arr) (B e)
      in (W', B', loss g))"

text \<open>
  Parameter stacks of the shape of a size sequence: \<open>Ws ! l\<close> is
  \<open>szs ! l \<times> szs ! (l + 1)\<close> and \<open>Bs ! l\<close> has length \<open>szs ! (l + 1)\<close>.
\<close>

definition shapes_ok :: "nat list \<Rightarrow> 'a list list list \<Rightarrow> 'a list list \<Rightarrow> bool" where
  "shapes_ok szs Ws Bs \<longleftrightarrow>
     map (map length) Ws = map (\<lambda>l. replicate (szs ! l) (szs ! (l + 1))) [0..<length szs - 1]
     \<and> map length Bs = map (\<lambda>l. szs ! (l + 1)) [0..<length szs - 1]"

section \<open>Definitions used in the statements and proofs\<close>

text \<open>
  The next two definitions name parts of the body of the sample loop: the array \<open>deltas\<close>
  that the loop body builds for one sample, and the summand it adds to \<open>loss\<close>.
  Lemma \<open>sample_grads_eq\<close> shows that \<open>sample_grads\<close> computes exactly these.
\<close>

definition sample_deltas :: "engine \<Rightarrow> real \<times> real \<Rightarrow> real \<Rightarrow> vec list" where
  "sample_deltas e xy t =
     (let tr = forward e (fst xy) (snd xy); L = length (layer_sizes (H e))
      in backward_loop e (tr_z tr) (L - 2) ((replicate (L - 1) [])[L - 2 := [yhat tr - t]]))"

definition sample_loss :: "task \<Rightarrow> real \<Rightarrow> real \<Rightarrow> real" where
  "sample_loss tsk yh t =
     (case tsk of
        Classification \<Rightarrow> - (t * ln (yh + 1 / 10 ^ 8) + (1 - t) * ln (1 - yh + 1 / 10 ^ 8))
      | Regression \<Rightarrow> 0.5 * (yh - t) * (yh - t))"

text \<open>
  \<open>acc_rel szs dW dB old new\<close>: the accumulators \<open>new\<close> have the shape of \<open>szs\<close> and equal
  \<open>old\<close> plus the increments \<open>dW\<close>, \<open>dB\<close> at every index of that shape.
\<close>

definition acc_rel ::
  "nat list \<Rightarrow> (nat \<Rightarrow> nat \<Rightarrow> nat \<Rightarrow> real) \<Rightarrow> (nat \<Rightarrow> nat \<Rightarrow> real)
     \<Rightarrow> mat list \<times> vec list \<Rightarrow> mat list \<times> vec list \<Rightarrow> bool" where
  "acc_rel szs dW dB old new \<longleftrightarrow>
     shapes_ok szs (fst new) (snd new)
     \<and> (\<forall>l<length szs - 1.
           (\<forall>i<szs ! l. \<forall>j<szs ! (l + 1). fst new ! l ! i ! j = fst old ! l ! i ! j + dW l i j)
         \<and> (\<forall>j<szs ! (l + 1). snd new ! l ! j = snd old ! l ! j + dB l j))"

text \<open>The number of weights and biases of a network with hidden widths \<open>h\<close>.\<close>

definition param_count :: "nat list \<Rightarrow> nat" where
  "param_count h =
     (let szs = layer_sizes h
      in (\<Sum>l\<leftarrow>[0..<length szs - 1]. szs ! l * szs ! (l + 1)) + sum_list (tl szs))"

text \<open>
  The binary cross-entropy without the offsets \<open>1e-8\<close>, its mean over a batch, and the
  engine whose parameters are moved by \<open>v\<close> along a direction \<open>(dW, dB)\<close>: the loss function
  whose derivative the gradients are compared with.
\<close>

definition bce_free :: "real \<Rightarrow> real \<Rightarrow> real" where
  "bce_free yh t = - (t * ln yh + (1 - t) * ln (1 - yh))"

definition mean_bce_free :: "engine \<Rightarrow> (real \<times> real) list \<Rightarrow> real list \<Rightarrow> real" where
  "mean_bce_free e XY yTrue =
     (\<Sum>n<length XY. bce_free (yhat (forward e (fst (XY ! n)) (snd (XY ! n)))) (yTrue ! n))
       / real (length XY)"

definition perturb ::
  "engine \<Rightarrow> (nat \<Rightarrow> nat \<Rightarrow> nat \<Rightarrow> real) \<Rightarrow> (nat \<Rightarrow> nat \<Rightarrow> real) \<Rightarrow> real \<Rightarrow> engine" where
  "perturb e dW dB v =
     e\<lparr>W := mapi (\<lambda>l. mapi (\<lambda>i. mapi (\<lambda>j w. w + v * dW l i j))) (W e),
       B := mapi (\<lambda>l. mapi (\<lambda>j b. b + v * dB l j)) (B e)\<rparr>"

text \<open>
  The derivatives, along the direction, of the activations and pre-activations of a
  forward pass (forward mode), and the part of the inner product of gradient and
  direction that belongs to layer \<open>l\<close>.
\<close>

fun fwd_dA ::
  "engine \<Rightarrow> trace \<Rightarrow> (nat \<Rightarrow> nat \<Rightarrow> nat \<Rightarrow> real) \<Rightarrow> (nat \<Rightarrow> nat \<Rightarrow> real) \<Rightarrow> nat \<Rightarrow> nat \<Rightarrow> real" where
  "fwd_dA e tr dW dB 0 i = 0"
| "fwd_dA e tr dW dB (Suc l) i =
     act_df (actFun e) (tr_z tr ! l ! i)
       * (dB l i + (\<Sum>k<layer_sizes (H e) ! l.
                      fwd_dA e tr dW dB l k * W e ! l ! k ! i + tr_a tr ! l ! k * dW l k i))"

definition fwd_dZ ::
  "engine \<Rightarrow> trace \<Rightarrow> (nat \<Rightarrow> nat \<Rightarrow> nat \<Rightarrow> real) \<Rightarrow> (nat \<Rightarrow> nat \<Rightarrow> real) \<Rightarrow> nat \<Rightarrow> nat \<Rightarrow> real" where
  "fwd_dZ e tr dW dB l j =
     dB l j + (\<Sum>k<layer_sizes (H e) ! l.
                 fwd_dA e tr dW dB l k * W e ! l ! k ! j + tr_a tr ! l ! k * dW l k j)"

definition layer_dot ::
  "engine \<Rightarrow> trace \<Rightarrow> vec list \<Rightarrow> (nat \<Rightarrow> nat \<Rightarrow> nat \<Rightarrow> real) \<Rightarrow> (nat \<Rightarrow> nat \<Rightarrow> real) \<Rightarrow> nat \<Rightarrow> real" where
  "layer_dot e tr ds dW dB l =
     (\<Sum>j<layer_sizes (H e) ! (l + 1).
        ds ! l ! j * (dB l j + (\<Sum>i<layer_sizes (H e) ! l. tr_a tr ! l ! i * dW l i j)))"

subsection \<open>Concrete engines\<close>

text \<open>The engine of the worked forward example: architecture \<open>[2, 2, 1]\<close>.\<close>

definition ex_engine :: engine where
  "ex_engine = \<lparr>H = [2], W = [[[1, -1], [1/2, 1/2]], [[1], [1]]], B = [[0, 0], [0]],
      actFun = Tanh, task = Regression\<rparr>"

text \<open>What initialisation returns for one hidden layer of width 0 from two draws \<open>1/2\<close>.\<close>

definition zero_width_engine :: engine where
  "zero_width_engine = \<lparr>H = [0], W = [[[], []], []],
      B = [[], [sqrt (- 2 * ln (1 / 2)) * cos (2 * pi * (1 / 2)) * 0.05]],
      actFun = Tanh, task = Classification\<rparr>"

text \<open>Two ReLU classifiers of architecture \<open>[2, 1, 1]\<close>; the first has all hidden parameters 0.\<close>

definition kink_engine :: engine where
  "kink_engine = \<lparr>H = [1], W = [[[0], [0]], [[1]]], B = [[0], [0]],
      actFun = Relu, task = Classification\<rparr>"

definition relu_engine :: engine where
  "relu_engine = \<lparr>H = [1], W = [[[1], [0]], [[1]]], B = [[1], [0]],
      actFun = Relu, task = Classification\<rparr>"

text \<open>
  A ReLU regression network of architecture \<open>[2, 2, 2, 1]\<close> with a batch of two points and
  their targets. At the first point the second unit of the first hidden layer is
  inactive (pre-activation \<open>-1\<close>); the predictions are 5 and 11, the targets 3 and 10.
\<close>

definition deep_engine :: engine where
  "deep_engine = \<lparr>H = [2, 2], W = [[[1, -1], [1, 1]], [[1, -1], [2, 1]], [[1], [2]]],
      B = [[0, 0], [0, 4], [0]], actFun = Relu, task = Regression\<rparr>"

definition deep_batch :: "(real \<times> real) list" where
  "deep_batch = [(2, 1), (0, 1)]"

definition deep_targets :: "real list" where
  "deep_targets = [3, 10]"

section \<open>Random sources and dataset generators\<close>

lemma first_nonzero_nonzeros:
  "0 < nonzeros us \<Longrightarrow> \<exists>u us'. first_nonzero us = Some (u, us') \<and> u \<noteq> 0 \<and> nonzeros us' = nonzeros us - 1"
  by (induction us) (auto simp: nonzeros_def)

lemma randn_nonzeros:
  assumes "2 \<le> nonzeros us"
  shows "\<exists>g us'. randn us = Some (g, us') \<and> nonzeros us' = nonzeros us - 2"
proof -
  from assms have "0 < nonzeros us" by simp
  from first_nonzero_nonzeros[OF this] obtain u us1 where
    1: "first_nonzero us = Some (u, us1)" "nonzeros us1 = nonzeros us - 1" by blast
  with assms have "0 < nonzeros us1" by simp
  from first_nonzero_nonzeros[OF this] obtain v us2 where
    2: "first_nonzero us1 = Some (v, us2)" "nonzeros us2 = nonzeros us1 - 1" by blast
  show ?thesis using 1 2 by (simp add: randn_def)
qed

lemma for_push_returns:
  fixes ent :: "'st \<Rightarrow> real list"
  assumes body: "\<And>i st. c \<le> nonzeros (ent st) \<Longrightarrow>
            \<exists>p st'. body i st = Some (p, st') \<and> nonzeros (ent st') = nonzeros (ent st) - c \<and> Q p"
    and "c * length ks \<le> nonzeros (ent st)"
  shows "\<exists>new st'. for_push body ks st pts = Some (pts @ new, st')
            \<and> nonzeros (ent st') = nonzeros (ent st) - c * length ks
            \<and> length new = length ks \<and> list_all Q new"
  using assms(2)
proof (induction ks arbitrary: st pts)
  case Nil
  then show ?case by simp
next
  case (Cons i ks)
  then have "c \<le> nonzeros (ent st)" by simp
  from body[OF this, of i] obtain p st1 where
    b: "body i st = Some (p, st1)" "nonzeros (ent st1) = nonzeros (ent st) - c" "Q p" by blast
  have "c * length ks \<le> nonzeros (ent st1)" using Cons.prems b by simp
  from Cons.IH[OF this, of "pts @ [p]"] obtain new st' where
    r: "for_push body ks st1 (pts @ [p]) = Some ((pts @ [p]) @ new, st')"
       "nonzeros (ent st') = nonzeros (ent st1) - c * length ks"
       "length new = length ks" "list_all Q new"
    by blast
  have "for_push body (i # ks) st pts = Some (pts @ (p # new), st')" using b r by simp
  moreover have "nonzeros (ent st') = nonzeros (ent st) - c * length (i # ks)"
    using b r Cons.prems by (simp add: algebra_simps)
  moreover have "length (p # new) = length (i # ks)" "list_all Q (p # new)" using b r by simp_all
  ultimately show ?case by blast
qed

lemma moons_upper_returns:
  "4 \<le> nonzeros (snd st) \<Longrightarrow> \<exists>p st'. moons_upper n noise i st = Some (p, st')
     \<and> nonzeros (snd st') = nonzeros (snd st) - 4 \<and> pt p = 0"
proof -
  assume a: "4 \<le> nonzeros (snd st)"
  then have "2 \<le> nonzeros (snd st)" by simp
  from randn_nonzeros[OF this] obtain g1 us1 where
    1: "randn (snd st) = Some (g1, us1)" "nonzeros us1 = nonzeros (snd st) - 2" by blast
  with a have "2 \<le> nonzeros us1" by simp
  from randn_nonzeros[OF this] obtain g2 us2 where
    2: "randn us1 = Some (g2, us2)" "nonzeros us2 = nonzeros us1 - 2" by blast
  show ?thesis using 1 2 by (simp add: moons_upper_def case_prod_beta Let_def)
qed

lemma moons_lower_returns:
  "4 \<le> nonzeros (snd st) \<Longrightarrow> \<exists>p st'. moons_lower n noise i st = Some (p, st')
     \<and> nonzeros (snd st') = nonzeros (snd st) - 4 \<and> pt p = 1"
proof -
  assume a: "4 \<le> nonzeros (snd st)"
  then have "2 \<le> nonzeros (snd st)" by simp
  from randn_nonzeros[OF this] obtain g1 us1 where
    1: "randn (snd st) = Some (g1, us1)" "nonzeros us1 = nonzeros (snd st) - 2" by blast
  with a have "2 \<le> nonzeros us1" by simp
  from randn_nonzeros[OF this] obtain g2 us2 where
    2: "randn us1 = Some (g2, us2)" "nonzeros us2 = nonzeros us1 - 2" by blast
  show ?thesis using 1 2 by (simp add: moons_lower_def case_prod_beta Let_def)
qed

lemma circles_ring_returns:
  "2 \<le> nonzeros us \<Longrightarrow> \<exists>p us'. circles_ring r0 lab n noise i us = Some (p, us')
     \<and> nonzeros us' = nonzeros us - 2 \<and> pt p = lab"
proof -
  assume a: "2 \<le> nonzeros us"
  then have "2 \<le> nonzeros us" by simp
  from randn_nonzeros[OF this] obtain g1 us1 where
    1: "randn us = Some (g1, us1)" "nonzeros us1 = nonzeros us - 2" by blast
  show ?thesis using 1 by (simp add: circles_ring_def case_prod_beta Let_def)
qed

lemma xor_body_returns:
  "4 \<le> nonzeros (snd st) \<Longrightarrow> \<exists>p st'. xor_body noise i st = Some (p, st')
     \<and> nonzeros (snd st') = nonzeros (snd st) - 4 \<and> (pt p = 0 \<or> pt p = 1)"
proof -
  assume a: "4 \<le> nonzeros (snd st)"
  then have "2 \<le> nonzeros (snd st)" by simp
  from randn_nonzeros[OF this] obtain g1 us1 where
    1: "randn (snd st) = Some (g1, us1)" "nonzeros us1 = nonzeros (snd st) - 2" by blast
  with a have "2 \<le> nonzeros us1" by simp
  from randn_nonzeros[OF this] obtain g2 us2 where
    2: "randn us1 = Some (g2, us2)" "nonzeros us2 = nonzeros us1 - 2" by blast
  show ?thesis using 1 2 by (simp add: xor_body_def case_prod_beta Let_def)
qed

lemma spirals_arm0_returns:
  "4 \<le> nonzeros us \<Longrightarrow> \<exists>p us'. spirals_arm0 n noise i us = Some (p, us')
     \<and> nonzeros us' = nonzeros us - 4 \<and> pt p = 0"
proof -
  assume a: "4 \<le> nonzeros us"
  then have "2 \<le> nonzeros us" by simp
  from randn_nonzeros[OF this] obtain g1 us1 where
    1: "randn us = Some (g1, us1)" "nonzeros us1 = nonzeros us - 2" by blast
  with a have "2 \<le> nonzeros us1" by simp
  from randn_nonzeros[OF this] obtain g2 us2 where
    2: "randn us1 = Some (g2, us2)" "nonzeros us2 = nonzeros us1 - 2" by blast
  show ?thesis using 1 2 by (simp add: spirals_arm0_def case_prod_beta Let_def)
qed

lemma spirals_arm1_returns:
  "4 \<le> nonzeros us \<Longrightarrow> \<exists>p us'. spirals_arm1 n noise i us = Some (p, us')
     \<and> nonzeros us' = nonzeros us - 4 \<and> pt p = 1"
proof -
  assume a: "4 \<le> nonzeros us"
  then have "2 \<le> nonzeros us" by simp
  from randn_nonzeros[OF this] obtain g1 us1 where
    1: "randn us = Some (g1, us1)" "nonzeros us1 = nonzeros us - 2" by blast
  with a have "2 \<le> nonzeros us1" by simp
  from randn_nonzeros[OF this] obtain g2 us2 where
    2: "randn us1 = Some (g2, us2)" "nonzeros us2 = nonzeros us1 - 2" by blast
  show ?thesis using 1 2 by (simp add: spirals_arm1_def case_prod_beta Let_def)
qed

lemma sinc_body_returns:
  "2 \<le> nonzeros (snd st) \<Longrightarrow> \<exists>p st'. sinc_body noise i st = Some (p, st')
     \<and> nonzeros (snd st') = nonzeros (snd st) - 2 \<and> True"
proof -
  assume a: "2 \<le> nonzeros (snd st)"
  then have "2 \<le> nonzeros (snd st)" by simp
  from randn_nonzeros[OF this] obtain g1 us1 where
    1: "randn (snd st) = Some (g1, us1)" "nonzeros us1 = nonzeros (snd st) - 2" by blast
  show ?thesis using 1 by (simp add: sinc_body_def case_prod_beta Let_def)
qed

lemma plane_body_returns:
  "2 \<le> nonzeros (snd st) \<Longrightarrow> \<exists>p st'. plane_body noise i st = Some (p, st')
     \<and> nonzeros (snd st') = nonzeros (snd st) - 2 \<and> True"
proof -
  assume a: "2 \<le> nonzeros (snd st)"
  then have "2 \<le> nonzeros (snd st)" by simp
  from randn_nonzeros[OF this] obtain g1 us1 where
    1: "randn (snd st) = Some (g1, us1)" "nonzeros us1 = nonzeros (snd st) - 2" by blast
  show ?thesis using 1 by (simp add: plane_body_def case_prod_beta Let_def)
qed

lemma map_const_replicate: "list_all (\<lambda>p. f p = c) xs \<Longrightarrow> map f xs = replicate (length xs) c"
  by (induction xs) simp_all

lemma moons_returns:
  assumes "8 * n \<le> nonzeros us"
  shows "\<exists>ds us'. moons n noise seed us = Some (ds, us') \<and> length (points ds) = 2 * n
           \<and> map pt (points ds) = replicate n 0 @ replicate n 1 \<and> ds_task ds = Classification"
proof -
  have "\<exists>new st'. for_push (moons_upper n noise) [0..<n] (seededRandom seed, us) [] = Some ([] @ new, st')
            \<and> nonzeros (snd st') = nonzeros (snd (seededRandom seed, us)) - 4 * length [0..<n]
            \<and> length new = length [0..<n] \<and> list_all (\<lambda>p. pt p = 0) new"
    by (rule for_push_returns[where ent = snd, OF moons_upper_returns]) (use assms in simp_all)
  then obtain pts0 st0 where
    0: "for_push (moons_upper n noise) [0..<n] (seededRandom seed, us) [] = Some ([] @ pts0, st0)"
    and e0: "nonzeros (snd st0) = nonzeros (snd (seededRandom seed, us)) - 4 * length [0..<n]"
    and n0: "length pts0 = length [0..<n]"
    and q0: "list_all (\<lambda>p. pt p = 0) pts0" by blast
  have "\<exists>new st'. for_push (moons_lower n noise) [0..<n] st0 pts0 = Some (pts0 @ new, st')
            \<and> nonzeros (snd st') = nonzeros (snd st0) - 4 * length [0..<n]
            \<and> length new = length [0..<n] \<and> list_all (\<lambda>p. pt p = 1) new"
    by (rule for_push_returns[where ent = snd, OF moons_lower_returns]) (use assms e0 in simp_all)
  then obtain pts1 st1 where
    1: "for_push (moons_lower n noise) [0..<n] st0 pts0 = Some (pts0 @ pts1, st1)"
    and n1: "length pts1 = length [0..<n]"
    and q1: "list_all (\<lambda>p. pt p = 1) pts1" by blast
  have "\<exists>nm. moons n noise seed us = Some (\<lparr>ds_name = nm,
          ds_task = Classification, points = pts0 @ pts1\<rparr>, snd st1)"
    using 0 1 by (simp add: moons_def)
  then obtain nm where "moons n noise seed us = Some (\<lparr>ds_name = nm,
          ds_task = Classification, points = pts0 @ pts1\<rparr>, snd st1)" ..
  moreover have "map pt (pts0 @ pts1) = replicate n 0 @ replicate n 1"
    using map_const_replicate[OF q0] map_const_replicate[OF q1] n0 n1 by simp
  moreover have "length (pts0 @ pts1) = 2 * n" using n0 n1 by simp
  ultimately show ?thesis by simp
qed

lemma circles_returns:
  assumes "4 * n \<le> nonzeros us"
  shows "\<exists>ds us'. circles n noise us = Some (ds, us') \<and> length (points ds) = 2 * n
           \<and> map pt (points ds) = replicate n 0 @ replicate n 1 \<and> ds_task ds = Classification"
proof -
  have "\<exists>new st'. for_push (circles_ring 0.6 0 n noise) [0..<n] us [] = Some ([] @ new, st')
            \<and> nonzeros st' = nonzeros us - 2 * length [0..<n]
            \<and> length new = length [0..<n] \<and> list_all (\<lambda>p. pt p = 0) new"
    by (rule for_push_returns[where ent = "\<lambda>u. u", OF circles_ring_returns]) (use assms in simp_all)
  then obtain pts0 st0 where
    0: "for_push (circles_ring 0.6 0 n noise) [0..<n] us [] = Some ([] @ pts0, st0)"
    and e0: "nonzeros st0 = nonzeros us - 2 * length [0..<n]"
    and n0: "length pts0 = length [0..<n]"
    and q0: "list_all (\<lambda>p. pt p = 0) pts0" by blast
  have "\<exists>new st'. for_push (circles_ring 1.3 1 n noise) [0..<n] st0 pts0 = Some (pts0 @ new, st')
            \<and> nonzeros st' = nonzeros st0 - 2 * length [0..<n]
            \<and> length new = length [0..<n] \<and> list_all (\<lambda>p. pt p = 1) new"
    by (rule for_push_returns[where ent = "\<lambda>u. u", OF circles_ring_returns]) (use assms e0 in simp_all)
  then obtain pts1 st1 where
    1: "for_push (circles_ring 1.3 1 n noise) [0..<n] st0 pts0 = Some (pts0 @ pts1, st1)"
    and n1: "length pts1 = length [0..<n]"
    and q1: "list_all (\<lambda>p. pt p = 1) pts1" by blast
  have "\<exists>nm. circles n noise us = Some (\<lparr>ds_name = nm,
          ds_task = Classification, points = pts0 @ pts1\<rparr>, st1)"
    using 0 1 by (simp add: circles_def)
  then obtain nm where "circles n noise us = Some (\<lparr>ds_name = nm,
          ds_task = Classification, points = pts0 @ pts1\<rparr>, st1)" ..
  moreover have "map pt (pts0 @ pts1) = replicate n 0 @ replicate n 1"
    using map_const_replicate[OF q0] map_const_replicate[OF q1] n0 n1 by simp
  moreover have "length (pts0 @ pts1) = 2 * n" using n0 n1 by simp
  ultimately show ?thesis by simp
qed

lemma spirals_returns:
  assumes "8 * n \<le> nonzeros us"
  shows "\<exists>ds us'. spirals n noise us = Some (ds, us') \<and> length (points ds) = 2 * n
           \<and> map pt (points ds) = replicate n 0 @ replicate n 1 \<and> ds_task ds = Classification"
proof -
  have "\<exists>new st'. for_push (spirals_arm0 n noise) [0..<n] us [] = Some ([] @ new, st')
            \<and> nonzeros st' = nonzeros us - 4 * length [0..<n]
            \<and> length new = length [0..<n] \<and> list_all (\<lambda>p. pt p = 0) new"
    by (rule for_push_returns[where ent = "\<lambda>u. u", OF spirals_arm0_returns]) (use assms in simp_all)
  then obtain pts0 st0 where
    0: "for_push (spirals_arm0 n noise) [0..<n] us [] = Some ([] @ pts0, st0)"
    and e0: "nonzeros st0 = nonzeros us - 4 * length [0..<n]"
    and n0: "length pts0 = length [0..<n]"
    and q0: "list_all (\<lambda>p. pt p = 0) pts0" by blast
  have "\<exists>new st'. for_push (spirals_arm1 n noise) [0..<n] st0 pts0 = Some (pts0 @ new, st')
            \<and> nonzeros st' = nonzeros st0 - 4 * length [0..<n]
            \<and> length new = length [0..<n] \<and> list_all (\<lambda>p. pt p = 1) new"
    by (rule for_push_returns[where ent = "\<lambda>u. u", OF spirals_arm1_returns]) (use assms e0 in simp_all)
  then obtain pts1 st1 where
    1: "for_push (spirals_arm1 n noise) [0..<n] st0 pts0 = Some (pts0 @ pts1, st1)"
    and n1: "length pts1 = length [0..<n]"
    and q1: "list_all (\<lambda>p. pt p = 1) pts1" by blast
  have "\<exists>nm. spirals n noise us = Some (\<lparr>ds_name = nm,
          ds_task = Classification, points = pts0 @ pts1\<rparr>, st1)"
    using 0 1 by (simp add: spirals_def)
  then obtain nm where "spirals n noise us = Some (\<lparr>ds_name = nm,
          ds_task = Classification, points = pts0 @ pts1\<rparr>, st1)" ..
  moreover have "map pt (pts0 @ pts1) = replicate n 0 @ replicate n 1"
    using map_const_replicate[OF q0] map_const_replicate[OF q1] n0 n1 by simp
  moreover have "length (pts0 @ pts1) = 2 * n" using n0 n1 by simp
  ultimately show ?thesis by simp
qed

lemma xor_ds_returns:
  assumes "4 * n \<le> nonzeros us"
  shows "\<exists>ds us'. xor_ds n noise seed us = Some (ds, us') \<and> length (points ds) = n
           \<and> list_all (\<lambda>p. pt p = 0 \<or> pt p = 1) (points ds)
           \<and> ds_task ds = Classification"
proof -
  have "\<exists>new st'. for_push (xor_body noise) [0..<n] (seededRandom seed, us) [] = Some ([] @ new, st')
            \<and> nonzeros (snd st') = nonzeros (snd (seededRandom seed, us)) - 4 * length [0..<n]
            \<and> length new = length [0..<n] \<and> list_all (\<lambda>p. pt p = 0 \<or> pt p = 1) new"
    by (rule for_push_returns[where ent = snd, OF xor_body_returns]) (use assms in simp_all)
  then obtain pts0 st0 where
    0: "for_push (xor_body noise) [0..<n] (seededRandom seed, us) [] = Some ([] @ pts0, st0)"
    and n0: "length pts0 = length [0..<n]"
    and q0: "list_all (\<lambda>p. pt p = 0 \<or> pt p = 1) pts0" by blast
  have "\<exists>nm. xor_ds n noise seed us = Some (\<lparr>ds_name = nm,
          ds_task = Classification, points = pts0\<rparr>, snd st0)"
    using 0 by (simp add: xor_ds_def)
  then obtain nm where "xor_ds n noise seed us = Some (\<lparr>ds_name = nm,
          ds_task = Classification, points = pts0\<rparr>, snd st0)" ..
  then show ?thesis using n0 q0 by simp
qed

lemma sinc_returns:
  assumes "2 * n \<le> nonzeros us"
  shows "\<exists>ds us'. sinc n noise seed us = Some (ds, us') \<and> length (points ds) = n
           \<and> ds_task ds = Regression"
proof -
  have "\<exists>new st'. for_push (sinc_body noise) [0..<n] (seededRandom seed, us) [] = Some ([] @ new, st')
            \<and> nonzeros (snd st') = nonzeros (snd (seededRandom seed, us)) - 2 * length [0..<n]
            \<and> length new = length [0..<n] \<and> list_all (\<lambda>p. True) new"
    by (rule for_push_returns[where ent = snd, OF sinc_body_returns]) (use assms in simp_all)
  then obtain pts0 st0 where
    0: "for_push (sinc_body noise) [0..<n] (seededRandom seed, us) [] = Some ([] @ pts0, st0)"
    and n0: "length pts0 = length [0..<n]"
    and q0: "list_all (\<lambda>p. True) pts0" by blast
  have "\<exists>nm. sinc n noise seed us = Some (\<lparr>ds_name = nm,
          ds_task = Regression, points = pts0\<rparr>, snd st0)"
    using 0 by (simp add: sinc_def)
  then obtain nm where "sinc n noise seed us = Some (\<lparr>ds_name = nm,
          ds_task = Regression, points = pts0\<rparr>, snd st0)" ..
  then show ?thesis using n0 q0 by simp
qed

lemma plane_returns:
  assumes "2 * n \<le> nonzeros us"
  shows "\<exists>ds us'. plane n noise seed us = Some (ds, us') \<and> length (points ds) = n
           \<and> ds_task ds = Regression"
proof -
  have "\<exists>new st'. for_push (plane_body noise) [0..<n] (seededRandom seed, us) [] = Some ([] @ new, st')
            \<and> nonzeros (snd st') = nonzeros (snd (seededRandom seed, us)) - 2 * length [0..<n]
            \<and> length new = length [0..<n] \<and> list_all (\<lambda>p. True) new"
    by (rule for_push_returns[where ent = snd, OF plane_body_returns]) (use assms in simp_all)
  then obtain pts0 st0 where
    0: "for_push (plane_body noise) [0..<n] (seededRandom seed, us) [] = Some ([] @ pts0, st0)"
    and n0: "length pts0 = length [0..<n]"
    and q0: "list_all (\<lambda>p. True) pts0" by blast
  have "\<exists>nm. plane n noise seed us = Some (\<lparr>ds_name = nm,
          ds_task = Regression, points = pts0\<rparr>, snd st0)"
    using 0 by (simp add: plane_def)
  then obtain nm where "plane n noise seed us = Some (\<lparr>ds_name = nm,
          ds_task = Regression, points = pts0\<rparr>, snd st0)" ..
  then show ?thesis using n0 q0 by simp
qed

lemma xor_body_seeded:
  assumes "xor_body noise i (s, us) = Some (p, st')"
  shows "fst st' = snd (rng (snd (rng s)))"
    and "pt p = (if ((fst (rng s) * 2 - 1) * 2 > 0) \<noteq> ((fst (rng (snd (rng s))) * 2 - 1) * 2 > 0)
                 then 1 else 0)"
    and "noise = 0 \<Longrightarrow> px p = (fst (rng s) * 2 - 1) * 2
            \<and> py p = (fst (rng (snd (rng s))) * 2 - 1) * 2"
  using assms
  by (auto simp: xor_body_def case_prod_beta Let_def split: Option.bind_splits)

lemma xor_loop_seeded:
  assumes "for_push (xor_body noise) ks (s, us1) pts1 = Some (r1, st1)"
    and "for_push (xor_body noise) ks (s, us2) pts2 = Some (r2, st2)"
    and "map pt pts1 = map pt pts2"
  shows "map pt r1 = map pt r2 \<and> (noise = 0 \<and> pts1 = pts2 \<longrightarrow> r1 = r2)"
  using assms
proof (induction ks arbitrary: s us1 us2 pts1 pts2)
  case Nil
  then show ?case by simp
next
  case (Cons i ks)
  from Cons.prems(1) obtain p1 s1 v1 where
    b1: "xor_body noise i (s, us1) = Some (p1, s1, v1)"
    and l1: "for_push (xor_body noise) ks (s1, v1) (pts1 @ [p1]) = Some (r1, st1)"
    by (auto split: option.splits)
  from Cons.prems(2) obtain p2 s2 v2 where
    b2: "xor_body noise i (s, us2) = Some (p2, s2, v2)"
    and l2: "for_push (xor_body noise) ks (s2, v2) (pts2 @ [p2]) = Some (r2, st2)"
    by (auto split: option.splits)
  have ss: "s1 = s2" using xor_body_seeded(1)[OF b1] xor_body_seeded(1)[OF b2] by simp
  have tt: "pt p1 = pt p2" using xor_body_seeded(2)[OF b1] xor_body_seeded(2)[OF b2] by simp
  have pp: "p1 = p2" if "noise = 0"
    using xor_body_seeded(3)[OF b1 that] xor_body_seeded(3)[OF b2 that] tt
    by (cases p1, cases p2) simp
  have "map pt (pts1 @ [p1]) = map pt (pts2 @ [p2])" using Cons.prems(3) tt by simp
  from Cons.IH[OF l1 l2[folded ss] this] pp show ?case by auto
qed



lemma rng_range:
  assumes "0 < s" "s < 2147483647"
  shows "0 < snd (rng s) \<and> snd (rng s) < 2147483647 \<and> 0 < fst (rng s) \<and> fst (rng s) < 1"
proof -
  let ?m = "2147483647 :: int"
  let ?r = "(s * 16807) mod ?m"
  have nd: "\<not> ?m dvd s * 16807"
  proof
    assume "?m dvd s * 16807"
    then have "?m dvd s * 16807 * (- 739806647)" by (rule dvd_mult2)
    moreover have "s * 16807 * (- 739806647) = s - ?m * (5790 * s)" by simp
    ultimately have "?m dvd s - ?m * (5790 * s)" by simp
    then have "?m dvd (s - ?m * (5790 * s)) + ?m * (5790 * s)" by (rule dvd_add) simp
    then have "?m dvd s" by simp
    with assms show False using zdvd_not_zless[of s ?m] by simp
  qed
  have "0 \<le> ?r" "?r < ?m" by simp_all
  moreover have "?r \<noteq> 0" using nd by (simp add: dvd_eq_mod_eq_0)
  ultimately have "0 < ?r" "?r < ?m" by simp_all
  moreover have "rng s = (real_of_int ?r / 2147483647, ?r)"
    using assms by (simp add: rng_def js_rem_def Let_def)
  ultimately show ?thesis by simp
qed

lemma seededRandom_range:
  assumes "js_rem seed 2147483647 \<noteq> - 2147483646"
  shows "0 < seededRandom seed \<and> seededRandom seed < 2147483647"
proof -
  have "0 \<le> seed mod 2147483647" "seed mod 2147483647 < 2147483647"
    "0 \<le> (- seed) mod 2147483647" "(- seed) mod 2147483647 < 2147483647" by simp_all
  then have "- 2147483647 < js_rem seed 2147483647" "js_rem seed 2147483647 < 2147483647"
    unfolding js_rem_def by (simp_all, linarith+)
  with assms show ?thesis by (simp add: seededRandom_def Let_def)
qed

lemma rng_seq_range:
  "0 < s \<Longrightarrow> s < 2147483647 \<Longrightarrow> list_all (\<lambda>v. 0 < v \<and> v < 1) (rng_seq s k)"
proof (induction k arbitrary: s)
  case 0
  then show ?case by simp
next
  case (Suc k)
  from rng_range[OF Suc.prems] Suc.IH[of "snd (rng s)"] show ?case
    by (simp add: case_prod_beta)
qed

lemma seed7: "seededRandom 7 = 7" by (simp add: seededRandom_def js_rem_def)

lemma rng7: "rng 7 = (117649 / 2147483647, 117649)" by (simp add: rng_def js_rem_def)

lemma rng7b: "rng 117649 = (1977326743 / 2147483647, 1977326743)" by (simp add: rng_def js_rem_def)

section \<open>Initialisation and shapes\<close>

lemma draw_row_length: "draw_row k c us = Some (row, us') \<Longrightarrow> length row = k"
  by (induction k arbitrary: us row) (auto split: Option.bind_splits)

lemma draw_row_returns:
  "2 * k \<le> nonzeros us \<Longrightarrow> \<exists>row us'. draw_row k c us = Some (row, us') \<and> nonzeros us' = nonzeros us - 2 * k"
proof (induction k arbitrary: us)
  case 0
  then show ?case by simp
next
  case (Suc k)
  then have "2 \<le> nonzeros us" by simp
  from randn_nonzeros[OF this] obtain g us1 where
    g: "randn us = Some (g, us1)" "nonzeros us1 = nonzeros us - 2" by blast
  with Suc.prems have "2 * k \<le> nonzeros us1" by simp
  from Suc.IH[OF this] obtain row us2 where
    r: "draw_row k c us1 = Some (row, us2)" "nonzeros us2 = nonzeros us1 - 2 * k" by blast
  show ?case using g r by simp
qed

lemma draw_rows_shape: "draw_rows m k c us = Some (rows, us') \<Longrightarrow> map length rows = replicate m k"
  by (induction m arbitrary: us rows) (auto split: Option.bind_splits simp: draw_row_length)

lemma draw_rows_returns:
  "2 * (m * k) \<le> nonzeros us \<Longrightarrow> \<exists>rows us'. draw_rows m k c us = Some (rows, us') \<and> nonzeros us' = nonzeros us - 2 * (m * k)"
proof (induction m arbitrary: us)
  case 0
  then show ?case by simp
next
  case (Suc m)
  then have "2 * k \<le> nonzeros us" by simp
  from draw_row_returns[OF this] obtain row us1 where
    g: "draw_row k c us = Some (row, us1)" "nonzeros us1 = nonzeros us - 2 * k" by blast
  with Suc.prems have "2 * (m * k) \<le> nonzeros us1" by simp
  from Suc.IH[OF this] obtain rows us2 where
    r: "draw_rows m k c us1 = Some (rows, us2)" "nonzeros us2 = nonzeros us1 - 2 * (m * k)" by blast
  show ?case using g r by (simp add: algebra_simps)
qed

lemma init_layers_shape:
  "init_layers szs ls us = Some (Ws, us') \<Longrightarrow>
     map (map length) Ws = map (\<lambda>l. replicate (szs ! l) (szs ! (l + 1))) ls"
  by (induction ls arbitrary: us Ws) (auto simp: Let_def draw_rows_shape split: Option.bind_splits)

lemma init_layers_returns:
  "2 * (\<Sum>l\<leftarrow>ls. szs ! l * szs ! (l + 1)) \<le> nonzeros us \<Longrightarrow>
     \<exists>Ws us'. init_layers szs ls us = Some (Ws, us')
        \<and> nonzeros us' = nonzeros us - 2 * (\<Sum>l\<leftarrow>ls. szs ! l * szs ! (l + 1))"
proof (induction ls arbitrary: us)
  case Nil
  then show ?case by simp
next
  case (Cons l ls)
  then have "2 * (szs ! l * szs ! (l + 1)) \<le> nonzeros us" by simp
  from draw_rows_returns[OF this] obtain m us1 where
    g: "draw_rows (szs ! l) (szs ! (l + 1)) (1 / sqrt (real (szs ! l))) us = Some (m, us1)"
       "nonzeros us1 = nonzeros us - 2 * (szs ! l * szs ! (l + 1))" by blast
  with Cons.prems have "2 * (\<Sum>l\<leftarrow>ls. szs ! l * szs ! (l + 1)) \<le> nonzeros us1" by simp
  from Cons.IH[OF this] obtain ms us2 where
    r: "init_layers szs ls us1 = Some (ms, us2)"
       "nonzeros us2 = nonzeros us1 - 2 * (\<Sum>l\<leftarrow>ls. szs ! l * szs ! (l + 1))" by blast
  show ?case using g r by (simp add: Let_def algebra_simps)
qed

lemma init_bias_layers_shape:
  "init_bias_layers outs us = Some (Bs, us') \<Longrightarrow> map length Bs = outs"
  by (induction outs arbitrary: us Bs) (auto split: Option.bind_splits simp: draw_row_length)

lemma init_bias_layers_returns:
  "2 * sum_list outs \<le> nonzeros us \<Longrightarrow>
     \<exists>Bs us'. init_bias_layers outs us = Some (Bs, us') \<and> nonzeros us' = nonzeros us - 2 * sum_list outs"
proof (induction outs arbitrary: us)
  case Nil
  then show ?case by simp
next
  case (Cons k outs)
  then have "2 * k \<le> nonzeros us" by simp
  from draw_row_returns[OF this] obtain b us1 where
    g: "draw_row k 0.05 us = Some (b, us1)" "nonzeros us1 = nonzeros us - 2 * k" by blast
  with Cons.prems have "2 * sum_list outs \<le> nonzeros us1" by simp
  from Cons.IH[OF this] obtain bs us2 where
    r: "init_bias_layers outs us1 = Some (bs, us2)" "nonzeros us2 = nonzeros us1 - 2 * sum_list outs" by blast
  show ?case using g r by (simp add: algebra_simps)
qed

lemma tl_conv_map_nth: "tl xs = map (\<lambda>l. xs ! (l + 1)) [0..<length xs - 1]"
  by (rule nth_equalityI) (simp_all add: nth_tl)

lemma init_shapes_ok:
  assumes "initWeights h us = Some (Ws, us1)" and "initBiases h us1 = Some (Bs, us2)"
  shows "shapes_ok (layer_sizes h) Ws Bs"
proof -
  have "map (map length) Ws = map (\<lambda>l. replicate (layer_sizes h ! l) (layer_sizes h ! (l + 1)))
          [0..<length (layer_sizes h) - 1]"
    using assms(1) init_layers_shape unfolding initWeights_def Let_def by blast
  moreover have "map length Bs = tl (layer_sizes h)"
    using assms(2) init_bias_layers_shape unfolding initBiases_def by blast
  ultimately show ?thesis unfolding shapes_ok_def using tl_conv_map_nth[of "layer_sizes h"] by simp
qed

lemma shapes_okD:
  assumes "shapes_ok szs Ws Bs"
  shows "length Ws = length szs - 1" "length Bs = length szs - 1"
    and "l < length szs - 1 \<Longrightarrow> length (Ws ! l) = szs ! l"
    and "l < length szs - 1 \<Longrightarrow> i < szs ! l \<Longrightarrow> length (Ws ! l ! i) = szs ! (l + 1)"
    and "l < length szs - 1 \<Longrightarrow> length (Bs ! l) = szs ! (l + 1)"
proof -
  from assms have w: "map (map length) Ws = map (\<lambda>l. replicate (szs ! l) (szs ! (l + 1))) [0..<length szs - 1]"
    and b: "map length Bs = map (\<lambda>l. szs ! (l + 1)) [0..<length szs - 1]"
    by (simp_all add: shapes_ok_def)
  have "length (map (map length) Ws) = length szs - 1" by (simp only: w) simp
  then show lw: "length Ws = length szs - 1" by simp
  have "length (map length Bs) = length szs - 1" by (simp only: b) simp
  then show lb: "length Bs = length szs - 1" by simp
  { assume l: "l < length szs - 1"
    have "map (map length) Ws ! l = replicate (szs ! l) (szs ! (l + 1))"
      using l by (simp only: w) simp
    with l lw have m: "map length (Ws ! l) = replicate (szs ! l) (szs ! (l + 1))" by simp
    have "length (map length (Ws ! l)) = szs ! l" by (simp only: m) simp
    then show ll: "length (Ws ! l) = szs ! l" by simp
    { assume i: "i < szs ! l"
      have "map length (Ws ! l) ! i = szs ! (l + 1)" using i by (simp only: m) simp
      then show "length (Ws ! l ! i) = szs ! (l + 1)" using i ll by simp }
    have "map length Bs ! l = szs ! (l + 1)" using l by (simp only: b) simp
    with l lb show "length (Bs ! l) = szs ! (l + 1)" by simp }
qed

lemma init_returns:
  assumes "2 * param_count h \<le> nonzeros us"
  shows "\<exists>Ws us1 Bs us2. initWeights h us = Some (Ws, us1) \<and> initBiases h us1 = Some (Bs, us2)"
proof -
  let ?szs = "layer_sizes h"
  let ?w = "\<Sum>l\<leftarrow>[0..<length ?szs - 1]. ?szs ! l * ?szs ! (l + 1)"
  from assms have a: "2 * ?w + 2 * sum_list (tl ?szs) \<le> nonzeros us"
    by (simp add: param_count_def Let_def)
  then have "2 * ?w \<le> nonzeros us" by simp
  from init_layers_returns[OF this] obtain Ws us1 where
    w: "init_layers ?szs [0..<length ?szs - 1] us = Some (Ws, us1)"
       "nonzeros us1 = nonzeros us - 2 * ?w" by blast
  with a have "2 * sum_list (tl ?szs) \<le> nonzeros us1" by simp
  from init_bias_layers_returns[OF this] obtain Bs us2 where
    b: "init_bias_layers (tl ?szs) us1 = Some (Bs, us2)" by blast
  show ?thesis using w(1) b by (simp add: initWeights_def initBiases_def Let_def)
qed

section \<open>Forward pass\<close>

lemma fold_add_upt:
  fixes f :: "nat \<Rightarrow> real"
  shows "fold (\<lambda>i s. s + f i) [0..<n] b = b + (\<Sum>i<n. f i)"
  by (induction n) simp_all

lemma layer_z_length: "length (layer_z e l al) = layer_sizes (H e) ! (l + 1)"
  by (simp add: layer_z_def Let_def)

lemma layer_z_nth:
  "j < layer_sizes (H e) ! (l + 1) \<Longrightarrow>
   layer_z e l al ! j = B e ! l ! j + (\<Sum>i<layer_sizes (H e) ! l. al ! i * W e ! l ! i ! j)"
  by (simp add: layer_z_def Let_def fold_add_upt)

lemma forward_fold:
  assumes "fold (forward_layer e) [0..<k] ([[x, y]], []) = (a, z)"
  shows "length a = Suc k \<and> length z = k \<and> a ! 0 = [x, y]
         \<and> (\<forall>l<k. z ! l = layer_z e l (a ! l)
               \<and> a ! Suc l = (if l = length (layer_sizes (H e)) - 2
                               then map (out_act (task e)) (z ! l)
                               else map (act_f (actFun e)) (z ! l)))"
  using assms
proof (induction k arbitrary: a z)
  case 0
  then show ?case by auto
next
  case (Suc k)
  obtain a' z' where p: "fold (forward_layer e) [0..<k] ([[x, y]], []) = (a', z')"
    by (cases "fold (forward_layer e) [0..<k] ([[x, y]], [])") 
  note ih = Suc.IH[OF p]
  let ?zl = "layer_z e k (a' ! k)"
  let ?new = "if k = length (layer_sizes (H e)) - 2 then map (out_act (task e)) ?zl
              else map (act_f (actFun e)) ?zl"
  from Suc.prems p have "forward_layer e k (a', z') = (a, z)" by simp
  then have a: "a = a' @ [?new]" and z: "z = z' @ [?zl]"
    by (simp_all add: forward_layer_def Let_def)
  have la: "length a' = Suc k" and lz: "length z' = k" and a0: "a' ! 0 = [x, y]" using ih by simp_all
  have st: "z ! l = layer_z e l (a ! l)
        \<and> a ! Suc l = (if l = length (layer_sizes (H e)) - 2
                               then map (out_act (task e)) (z ! l)
                               else map (act_f (actFun e)) (z ! l))" if "l < Suc k" for l
  proof (cases "l < k")
    case True
    with ih have "z' ! l = layer_z e l (a' ! l)"
      "a' ! Suc l = (if l = length (layer_sizes (H e)) - 2
                               then map (out_act (task e)) (z' ! l)
                               else map (act_f (actFun e)) (z' ! l))" by simp_all
    with True la lz show ?thesis by (simp add: a z nth_append)
  next
    case False
    with that have "l = k" by simp
    with la lz show ?thesis by (simp add: a z nth_append)
  qed
  show ?case using la lz a0 st by (simp add: a z nth_append)
qed

lemma forward_trace:
  fixes e x y
  defines "tr \<equiv> forward e x y" and "L \<equiv> length (layer_sizes (H e))"
  shows "length (tr_a tr) = L" and "length (tr_z tr) = L - 1" and "tr_a tr ! 0 = [x, y]"
    and "l < L - 1 \<Longrightarrow> tr_z tr ! l = layer_z e l (tr_a tr ! l)"
    and "l < L - 2 \<Longrightarrow> tr_a tr ! Suc l = map (act_f (actFun e)) (tr_z tr ! l)"
    and "tr_a tr ! (L - 1) = map (out_act (task e)) (tr_z tr ! (L - 2))"
    and "yhat tr = tr_a tr ! (L - 1) ! 0"
proof -
  obtain a z where p: "fold (forward_layer e) [0..<L - 1] ([[x, y]], []) = (a, z)"
    by (cases "fold (forward_layer e) [0..<L - 1] ([[x, y]], [])")
  have L2: "2 \<le> L" by (simp add: L_def layer_sizes_def)
  have tr: "tr = \<lparr>tr_a = a, tr_z = z, yhat = a ! (length a - 1) ! 0\<rparr>"
    using p by (simp add: tr_def forward_def L_def Let_def)
  note ff = forward_fold[OF p, folded L_def]
  from ff L2 show "length (tr_a tr) = L" "length (tr_z tr) = L - 1" "tr_a tr ! 0 = [x, y]"
    by (simp_all add: tr)
  from ff show "l < L - 1 \<Longrightarrow> tr_z tr ! l = layer_z e l (tr_a tr ! l)" by (simp add: tr)
  from ff show "l < L - 2 \<Longrightarrow> tr_a tr ! Suc l = map (act_f (actFun e)) (tr_z tr ! l)"
    by (simp add: tr)
  have "L - 2 < L - 1" using L2 by simp
  with ff have "a ! Suc (L - 2) = map (out_act (task e)) (z ! (L - 2))" by simp
  moreover have "Suc (L - 2) = L - 1" using L2 by simp
  ultimately show "tr_a tr ! (L - 1) = map (out_act (task e)) (tr_z tr ! (L - 2))" by (simp add: tr)
  from ff L2 show "yhat tr = tr_a tr ! (L - 1) ! 0" by (simp add: tr)
qed

lemma upt2: "[0..<2] = [0, 1]" by (simp add: upt_rec)

lemma ex_forward:
  "forward ex_engine 1 0 = \<lparr>tr_a = [[1, 0], [tanh 1, tanh (- 1)], [tanh 1 + tanh (- 1)]],
      tr_z = [[1, - 1], [tanh 1 + tanh (- 1)]], yhat = tanh 1 + tanh (- 1)\<rparr>"
  by (simp add: forward_def forward_layer_def layer_z_def ex_engine_def layer_sizes_def upt2 out_act_def Let_def)

section \<open>Backward pass and accumulation\<close>

lemma fold_upt_invariant:
  assumes "P 0 s" and "\<And>i s. i < n \<Longrightarrow> P i s \<Longrightarrow> P (Suc i) (f i s)"
  shows "P n (fold f [0..<n] s)"
proof -
  have "k \<le> n \<Longrightarrow> P k (fold f [0..<k] s)" for k
    by (induction k) (simp_all add: assms)
  then show ?thesis by simp
qed

lemma shapes_okI:
  assumes "length Ws = length szs - 1" "length Bs = length szs - 1"
    and "\<And>l. l < length szs - 1 \<Longrightarrow> length (Ws ! l) = szs ! l"
    and "\<And>l i. l < length szs - 1 \<Longrightarrow> i < szs ! l \<Longrightarrow> length (Ws ! l ! i) = szs ! (l + 1)"
    and "\<And>l. l < length szs - 1 \<Longrightarrow> length (Bs ! l) = szs ! (l + 1)"
  shows "shapes_ok szs Ws Bs"
proof -
  have "map (map length) Ws = map (\<lambda>l. replicate (szs ! l) (szs ! (l + 1))) [0..<length szs - 1]"
  proof (rule nth_equalityI)
    show "length (map (map length) Ws) = length (map (\<lambda>l. replicate (szs ! l) (szs ! (l + 1))) [0..<length szs - 1])"
      using assms(1) by simp
  next
    fix l assume "l < length (map (map length) Ws)"
    then have l: "l < length szs - 1" using assms(1) by simp
    have "map length (Ws ! l) = replicate (szs ! l) (szs ! (l + 1))"
      by (rule nth_equalityI) (use assms(3,4) l in simp_all)
    then show "map (map length) Ws ! l = map (\<lambda>l. replicate (szs ! l) (szs ! (l + 1))) [0..<length szs - 1] ! l"
      using l assms(1) by simp
  qed
  moreover have "map length Bs = map (\<lambda>l. szs ! (l + 1)) [0..<length szs - 1]"
    by (rule nth_equalityI) (use assms(2,5) in simp_all)
  ultimately show ?thesis by (simp add: shapes_ok_def)
qed

lemma map_update_same: "(map f xs)[i := f (xs ! i)] = map f xs"
  by (metis list_update_id map_update)

lemma shapes_ok_updW:
  assumes "shapes_ok szs Ws Bs"
  shows "shapes_ok szs (Ws[l := (Ws ! l)[i := (Ws ! l ! i)[j := v]]]) Bs"
proof -
  have "map (map length) (Ws[l := (Ws ! l)[i := (Ws ! l ! i)[j := v]]]) = map (map length) Ws"
    by (simp add: map_update map_update_same)
  with assms show ?thesis by (simp add: shapes_ok_def)
qed

lemma shapes_ok_updB:
  assumes "shapes_ok szs Ws Bs"
  shows "shapes_ok szs Ws (Bs[l := (Bs ! l)[j := v]])"
proof -
  have "map length (Bs[l := (Bs ! l)[j := v]]) = map length Bs"
    by (simp add: map_update map_update_same)
  with assms show ?thesis by (simp add: shapes_ok_def)
qed

lemma updW_nth:
  assumes "l' < length Ws" "i' < length (Ws ! l')" "j' < length (Ws ! l' ! i')"
  shows "Ws[l := (Ws ! l)[i := (Ws ! l ! i)[j := v]]] ! l' ! i' ! j'
         = (if l' = l \<and> i' = i \<and> j' = j then v else Ws ! l' ! i' ! j')"
  using assms by (cases "l' = l"; cases "i' = i"; cases "j' = j") simp_all

lemma updB_nth:
  assumes "l' < length Bs" "j' < length (Bs ! l')"
  shows "Bs[l := (Bs ! l)[j := v]] ! l' ! j' = (if l' = l \<and> j' = j then v else Bs ! l' ! j')"
  using assms by (cases "l' = l"; cases "j' = j") simp_all

lemma hidden_delta_length:
  "length (hidden_delta e z l ds) = layer_sizes (H e) ! (l + 1)"
  by (simp add: hidden_delta_def Let_def)

lemma hidden_delta_nth:
  "i < layer_sizes (H e) ! (l + 1) \<Longrightarrow>
   hidden_delta e z l ds ! i
     = (\<Sum>j<layer_sizes (H e) ! (l + 2). ds ! (l + 1) ! j * W e ! (l + 1) ! i ! j)
       * act_df (actFun e) (z ! l ! i)"
  by (simp add: hidden_delta_def Let_def fold_add_upt)

lemma hidden_delta_cong:
  "ds ! (l + 1) = ds' ! (l + 1) \<Longrightarrow> hidden_delta e z l ds = hidden_delta e z l ds'"
  by (simp add: hidden_delta_def)

lemma backward_loop_spec:
  assumes "k < length ds0"
  shows "length (backward_loop e z k ds0) = length ds0
       \<and> (\<forall>l. k \<le> l \<longrightarrow> backward_loop e z k ds0 ! l = ds0 ! l)
       \<and> (\<forall>l<k. backward_loop e z k ds0 ! l = hidden_delta e z l (backward_loop e z k ds0))"
  using assms
proof (induction k arbitrary: ds0)
  case 0
  then show ?case by simp
next
  case (Suc k)
  let ?ds1 = "ds0[k := hidden_delta e z k ds0]"
  let ?r = "backward_loop e z k ?ds1"
  have "k < length ?ds1" using Suc.prems by simp
  from Suc.IH[OF this] have len: "length ?r = length ds0"
    and keep: "\<And>l. k \<le> l \<Longrightarrow> ?r ! l = ?ds1 ! l"
    and rec: "\<And>l. l < k \<Longrightarrow> ?r ! l = hidden_delta e z l ?r" by simp_all
  have r: "backward_loop e z (Suc k) ds0 = ?r" by simp
  have k1: "?r ! (k + 1) = ds0 ! (k + 1)" using keep[of "k + 1"] by simp
  have "?r ! k = hidden_delta e z k ds0" using keep[of k] Suc.prems by simp
  also have "\<dots> = hidden_delta e z k ?r" using k1 by (rule hidden_delta_cong[symmetric])
  finally have atk: "?r ! k = hidden_delta e z k ?r" .
  have "?r ! l = hidden_delta e z l ?r" if "l < Suc k" for l
    using that rec[of l] atk by (cases "l = k") simp_all
  moreover have "?r ! l = ds0 ! l" if "Suc k \<le> l" for l using keep[of l] that by simp
  ultimately show ?case unfolding r using len by blast
qed

lemma acc_inner:
  assumes ok: "shapes_ok szs accW accB"
  shows "acc_rel szs (\<lambda>l' i' j'. if l' = l \<and> j' = j \<and> i' < n then c i' else 0) (\<lambda>_ _. 0)
           (accW, accB)
           (fold (\<lambda>i acc. acc[l := (acc ! l)[i := (acc ! l ! i)[j := acc ! l ! i ! j + c i]]])
              [0..<n] accW, accB)"
proof -
  let ?P = "\<lambda>k acc. acc_rel szs (\<lambda>l' i' j'. if l' = l \<and> j' = j \<and> i' < k then c i' else 0)
              (\<lambda>_ _. 0) (accW, accB) (acc, accB)"
  let ?f = "\<lambda>i acc. acc[l := (acc ! l)[i := (acc ! l ! i)[j := acc ! l ! i ! j + c i]]]"
  have base: "?P 0 accW" using ok by (simp add: acc_rel_def)
  have step: "?P (Suc i) (?f i acc)" if i: "i < n" and p: "?P i acc" for i acc
  proof -
    from p have ok': "shapes_ok szs acc accB"
      and v: "\<And>l' i' j'. l' < length szs - 1 \<Longrightarrow> i' < szs ! l' \<Longrightarrow> j' < szs ! (l' + 1) \<Longrightarrow>
                acc ! l' ! i' ! j' = accW ! l' ! i' ! j' + (if l' = l \<and> j' = j \<and> i' < i then c i' else 0)"
      by (simp_all add: acc_rel_def)
    have "shapes_ok szs (?f i acc) accB" using ok' by (rule shapes_ok_updW)
    moreover have "?f i acc ! l' ! i' ! j'
          = accW ! l' ! i' ! j' + (if l' = l \<and> j' = j \<and> i' < Suc i then c i' else 0)"
      if "l' < length szs - 1" "i' < szs ! l'" "j' < szs ! (l' + 1)" for l' i' j'
    proof -
      have "l' < length acc" "i' < length (acc ! l')" "j' < length (acc ! l' ! i')"
        using shapes_okD[OF ok'] that by simp_all
      from updW_nth[OF this] have "?f i acc ! l' ! i' ! j'
          = (if l' = l \<and> i' = i \<and> j' = j then acc ! l ! i ! j + c i else acc ! l' ! i' ! j')" .
      then show ?thesis using v[OF that] by (auto simp: less_Suc_eq)
    qed
    ultimately show ?thesis using p by (simp add: acc_rel_def)
  qed
  show ?thesis using fold_upt_invariant[of ?P accW n ?f, OF base step] by simp
qed

lemma acc_relD:
  assumes "acc_rel szs dW dB old new"
  shows "shapes_ok szs (fst new) (snd new)"
    and "l < length szs - 1 \<Longrightarrow> i < szs ! l \<Longrightarrow> j < szs ! (l + 1) \<Longrightarrow>
           fst new ! l ! i ! j = fst old ! l ! i ! j + dW l i j"
    and "l < length szs - 1 \<Longrightarrow> j < szs ! (l + 1) \<Longrightarrow> snd new ! l ! j = snd old ! l ! j + dB l j"
  using assms by (simp_all add: acc_rel_def)

lemma acc_middle:
  assumes ok: "shapes_ok szs accW accB" and n: "n \<le> szs ! l"
  shows "acc_rel szs (\<lambda>l' i' j'. if l' = l \<and> j' < m then a ! l ! i' * ds ! l ! j' else 0)
           (\<lambda>l' j'. if l' = l \<and> j' < m then ds ! l ! j' else 0)
           (accW, accB)
           (fold (\<lambda>j (accW, accB).
              let accB' = accB[l := (accB ! l)[j := accB ! l ! j + ds ! l ! j]]
              in (fold (\<lambda>i acc. acc[l := (acc ! l)[i := (acc ! l ! i)[j := acc ! l ! i ! j
                                                         + a ! l ! i * ds ! l ! j]]])
                    [0..<szs ! l] accW, accB')) [0..<m] (accW, accB))"
proof -
  let ?P = "\<lambda>k st. acc_rel szs (\<lambda>l' i' j'. if l' = l \<and> j' < k then a ! l ! i' * ds ! l ! j' else 0)
           (\<lambda>l' j'. if l' = l \<and> j' < k then ds ! l ! j' else 0) (accW, accB) st"
  let ?f = "\<lambda>j (accW, accB).
              let accB' = accB[l := (accB ! l)[j := accB ! l ! j + ds ! l ! j]]
              in (fold (\<lambda>i acc. acc[l := (acc ! l)[i := (acc ! l ! i)[j := acc ! l ! i ! j
                                                         + a ! l ! i * ds ! l ! j]]])
                    [0..<szs ! l] accW, accB')"
  have base: "?P 0 (accW, accB)" using ok by (simp add: acc_rel_def)
  have step: "?P (Suc j) (?f j st)" if p: "?P j st" for j st
  proof -
    obtain aW aB where st: "st = (aW, aB)" by (cases st)
    let ?aB' = "aB[l := (aB ! l)[j := aB ! l ! j + ds ! l ! j]]"
    let ?aW' = "fold (\<lambda>i acc. acc[l := (acc ! l)[i := (acc ! l ! i)[j := acc ! l ! i ! j
                                                         + a ! l ! i * ds ! l ! j]]])
                    [0..<szs ! l] aW"
    have f: "?f j st = (?aW', ?aB')" by (simp add: st Let_def)
    note pd = acc_relD[OF p[unfolded st], unfolded fst_conv snd_conv]
    have okB: "shapes_ok szs aW ?aB'" using pd(1) by (rule shapes_ok_updB)
    note inner = acc_relD[OF acc_inner[OF okB, of l j "szs ! l" "\<lambda>i. a ! l ! i * ds ! l ! j"], unfolded fst_conv snd_conv]
    have w: "?aW' ! l' ! i' ! j' = accW ! l' ! i' ! j'
          + (if l' = l \<and> j' < Suc j then a ! l ! i' * ds ! l ! j' else 0)"
      if "l' < length szs - 1" "i' < szs ! l'" "j' < szs ! (l' + 1)" for l' i' j'
      using inner(2)[OF that] pd(2)[OF that] that by (auto simp: less_Suc_eq)
    have b: "?aB' ! l' ! j' = accB ! l' ! j' + (if l' = l \<and> j' < Suc j then ds ! l ! j' else 0)"
      if "l' < length szs - 1" "j' < szs ! (l' + 1)" for l' j'
    proof -
      have "l' < length aB" "j' < length (aB ! l')" using shapes_okD[OF pd(1)] that by simp_all
      from updB_nth[OF this] show ?thesis using pd(3)[OF that] by (auto simp: less_Suc_eq)
    qed
    show ?thesis unfolding f using inner(1) w b by (simp add: acc_rel_def)
  qed
  show ?thesis using fold_upt_invariant[of ?P "(accW, accB)" m ?f, OF base step] by simp
qed

lemma accumulate_spec:
  assumes ok: "shapes_ok (layer_sizes (H e)) accW accB"
  shows "acc_rel (layer_sizes (H e)) (\<lambda>l i j. a ! l ! i * ds ! l ! j) (\<lambda>l j. ds ! l ! j)
           (accW, accB) (accumulate e a ds (accW, accB))"
proof -
  let ?szs = "layer_sizes (H e)"
  let ?P = "\<lambda>k st. acc_rel ?szs (\<lambda>l i j. if l < k then a ! l ! i * ds ! l ! j else 0)
           (\<lambda>l j. if l < k then ds ! l ! j else 0) (accW, accB) st"
  let ?g = "\<lambda>l. fold (\<lambda>j (accW, accB).
              let accB' = accB[l := (accB ! l)[j := accB ! l ! j + ds ! l ! j]]
              in (fold (\<lambda>i acc. acc[l := (acc ! l)[i := (acc ! l ! i)[j := acc ! l ! i ! j
                                                         + a ! l ! i * ds ! l ! j]]])
                    [0..<?szs ! l] accW, accB')) [0..<?szs ! (l + 1)]"
  have acc: "accumulate e a ds = fold ?g [0..<length ?szs - 1]"
    by (simp add: accumulate_def Let_def)
  have base: "?P 0 (accW, accB)" using ok by (simp add: acc_rel_def)
  have step: "?P (Suc l) (?g l st)" if p: "?P l st" for l st
  proof -
    obtain aW aB where st: "st = (aW, aB)" by (cases st)
    note pd = acc_relD[OF p[unfolded st], unfolded fst_conv snd_conv]
    note mid = acc_relD[OF acc_middle[OF pd(1) order_refl, of l "?szs ! (l + 1)" a ds], unfolded fst_conv snd_conv]
    have w: "fst (?g l st) ! l' ! i' ! j' = accW ! l' ! i' ! j'
          + (if l' < Suc l then a ! l' ! i' * ds ! l' ! j' else 0)"
      if "l' < length ?szs - 1" "i' < ?szs ! l'" "j' < ?szs ! (l' + 1)" for l' i' j'
      using mid(2)[OF that] pd(2)[OF that] that unfolding st by (auto simp: less_Suc_eq)
    have b: "snd (?g l st) ! l' ! j' = accB ! l' ! j' + (if l' < Suc l then ds ! l' ! j' else 0)"
      if "l' < length ?szs - 1" "j' < ?szs ! (l' + 1)" for l' j'
      using mid(3)[OF that] pd(3)[OF that] that unfolding st by (auto simp: less_Suc_eq)
    show ?thesis using mid(1) w b unfolding st by (simp add: acc_rel_def)
  qed
  have "?P (length ?szs - 1) (fold ?g [0..<length ?szs - 1] (accW, accB))"
    by (rule fold_upt_invariant[of ?P "(accW, accB)" _ ?g, OF base step])
  then show ?thesis unfolding acc by (simp add: acc_rel_def)
qed

lemma sample_grads_eq:
  "sample_grads e XY yTrue n (aW, aB, ls) =
     (case accumulate e (tr_a (forward e (fst (XY ! n)) (snd (XY ! n))))
             (sample_deltas e (XY ! n) (yTrue ! n)) (aW, aB) of
        (aW', aB') \<Rightarrow> (aW', aB',
           ls + sample_loss (task e) (yhat (forward e (fst (XY ! n)) (snd (XY ! n)))) (yTrue ! n)))"
  by (cases "task e")
     (simp_all add: sample_grads_def sample_deltas_def sample_loss_def Let_def case_prod_beta
        numeral_2_eq_2)

lemma sample_deltas_spec:
  fixes e xy t
  defines "ds \<equiv> sample_deltas e xy t" and "tr \<equiv> forward e (fst xy) (snd xy)"
    and "L \<equiv> length (layer_sizes (H e))"
  shows "length ds = L - 1" and "ds ! (L - 2) = [yhat tr - t]"
    and "l < L - 2 \<Longrightarrow> i < layer_sizes (H e) ! (l + 1) \<Longrightarrow>
           ds ! l ! i = act_df (actFun e) (tr_z tr ! l ! i)
              * (\<Sum>j<layer_sizes (H e) ! (l + 2). ds ! (l + 1) ! j * W e ! (l + 1) ! i ! j)"
proof -
  let ?ds0 = "(replicate (L - 1) [])[L - 2 := [yhat tr - t]]"
  have L2: "2 \<le> L" by (simp add: L_def layer_sizes_def)
  have ds: "ds = backward_loop e (tr_z tr) (L - 2) ?ds0"
    by (simp add: ds_def sample_deltas_def tr_def L_def Let_def)
  have "L - 2 < length ?ds0" using L2 by simp
  note bl = backward_loop_spec[OF this, of e "tr_z tr", folded ds]
  from bl show "length ds = L - 1" by simp
  from bl have "ds ! (L - 2) = ?ds0 ! (L - 2)" by simp
  then show "ds ! (L - 2) = [yhat tr - t]" using L2 by simp
  assume l: "l < L - 2" and i: "i < layer_sizes (H e) ! (l + 1)"
  from bl l have "ds ! l = hidden_delta e (tr_z tr) l ds" by simp
  then show "ds ! l ! i = act_df (actFun e) (tr_z tr ! l ! i)
              * (\<Sum>j<layer_sizes (H e) ! (l + 2). ds ! (l + 1) ! j * W e ! (l + 1) ! i ! j)"
    using hidden_delta_nth[OF i, of "tr_z tr" ds] by (simp add: mult.commute)
qed

lemma acc_rel_trans:
  assumes "acc_rel szs dW1 dB1 old mid" and "acc_rel szs dW2 dB2 mid new"
  shows "acc_rel szs (\<lambda>l i j. dW1 l i j + dW2 l i j) (\<lambda>l j. dB1 l j + dB2 l j) old new"
  using assms by (simp add: acc_rel_def)

lemma zero_acc_shapes:
  assumes "shapes_ok szs Ws Bs"
  shows "shapes_ok szs (map (map (map f)) Ws) (map (map g) Bs)"
proof -
  have "map (map length) (map (map (map f)) Ws) = map (map length) Ws"
    and "map length (map (map g) Bs) = map length Bs" by (simp_all add: comp_def)
  with assms show ?thesis by (simp add: shapes_ok_def)
qed

lemma map3_nth:
  assumes "shapes_ok szs Ws Bs" and "l < length szs - 1"
  shows "i < szs ! l \<Longrightarrow> j < szs ! (l + 1) \<Longrightarrow> map (map (map f)) Ws ! l ! i ! j = f (Ws ! l ! i ! j)"
    and "j < szs ! (l + 1) \<Longrightarrow> map (map g) Bs ! l ! j = g (Bs ! l ! j)"
  using shapes_okD[OF assms(1)] assms(2) by simp_all

lemma batch_loop_spec:
  fixes e XY yTrue
  defines "szs \<equiv> layer_sizes (H e)"
    and "tr \<equiv> \<lambda>n. forward e (fst (XY ! n)) (snd (XY ! n))"
    and "ds \<equiv> \<lambda>n. sample_deltas e (XY ! n) (yTrue ! n)"
  assumes ok: "shapes_ok szs accW accB"
  shows "case fold (sample_grads e XY yTrue) [0..<k] (accW, accB, 0) of
           (aW, aB, ls) \<Rightarrow>
             acc_rel szs (\<lambda>l i j. \<Sum>n<k. tr_a (tr n) ! l ! i * ds n ! l ! j)
               (\<lambda>l j. \<Sum>n<k. ds n ! l ! j) (accW, accB) (aW, aB)
             \<and> ls = (\<Sum>n<k. sample_loss (task e) (yhat (tr n)) (yTrue ! n))"
proof (induction k)
  case 0
  then show ?case using ok by (simp add: acc_rel_def)
next
  case (Suc k)
  obtain aW aB ls where f: "fold (sample_grads e XY yTrue) [0..<k] (accW, accB, 0) = (aW, aB, ls)"
    by (cases "fold (sample_grads e XY yTrue) [0..<k] (accW, accB, 0)")
  from Suc f have r: "acc_rel szs (\<lambda>l i j. \<Sum>n<k. tr_a (tr n) ! l ! i * ds n ! l ! j)
               (\<lambda>l j. \<Sum>n<k. ds n ! l ! j) (accW, accB) (aW, aB)"
    and ls: "ls = (\<Sum>n<k. sample_loss (task e) (yhat (tr n)) (yTrue ! n))" by simp_all
  obtain aW' aB' where a: "accumulate e (tr_a (tr k)) (ds k) (aW, aB) = (aW', aB')"
    by (cases "accumulate e (tr_a (tr k)) (ds k) (aW, aB)")
  have "shapes_ok (layer_sizes (H e)) aW aB" using acc_relD(1)[OF r] by (simp add: szs_def)
  from accumulate_spec[OF this, of "tr_a (tr k)" "ds k"]
  have "acc_rel szs (\<lambda>l i j. tr_a (tr k) ! l ! i * ds k ! l ! j) (\<lambda>l j. ds k ! l ! j)
          (aW, aB) (aW', aB')" by (simp add: a szs_def)
  from acc_rel_trans[OF r this]
  have r': "acc_rel szs (\<lambda>l i j. \<Sum>n<Suc k. tr_a (tr n) ! l ! i * ds n ! l ! j)
               (\<lambda>l j. \<Sum>n<Suc k. ds n ! l ! j) (accW, accB) (aW', aB')" by simp
  have "fold (sample_grads e XY yTrue) [0..<Suc k] (accW, accB, 0)
          = sample_grads e XY yTrue k (aW, aB, ls)" using f by simp
  also have "\<dots> = (aW', aB', ls + sample_loss (task e) (yhat (tr k)) (yTrue ! k))"
    using a by (simp add: sample_grads_eq tr_def ds_def)
  finally show ?case using r' ls by simp
qed

lemma computeBatchGrads_values:
  fixes e XY yTrue
  defines "szs \<equiv> layer_sizes (H e)"
    and "tr \<equiv> \<lambda>n. forward e (fst (XY ! n)) (snd (XY ! n))"
    and "ds \<equiv> \<lambda>n. sample_deltas e (XY ! n) (yTrue ! n)"
    and "g \<equiv> computeBatchGrads e XY yTrue"
    and "N \<equiv> length XY"
  assumes ok: "shapes_ok szs (W e) (B e)"
  shows "shapes_ok szs (gW g) (gB g)"
    and "l < length szs - 1 \<Longrightarrow> i < szs ! l \<Longrightarrow> j < szs ! (l + 1) \<Longrightarrow>
           gW g ! l ! i ! j = js_div (\<Sum>n<N. tr_a (tr n) ! l ! i * ds n ! l ! j) N"
    and "l < length szs - 1 \<Longrightarrow> j < szs ! (l + 1) \<Longrightarrow>
           gB g ! l ! j = js_div (\<Sum>n<N. ds n ! l ! j) N"
    and "loss g = js_div (\<Sum>n<N. sample_loss (task e) (yhat (tr n)) (yTrue ! n)) N"
proof -
  let ?W0 = "map (map (map (\<lambda>_. 0::real))) (W e)" and ?B0 = "map (map (\<lambda>_. 0::real)) (B e)"
  obtain aW aB ls where f: "fold (sample_grads e XY yTrue) [0..<N] (?W0, ?B0, 0) = (aW, aB, ls)"
    by (cases "fold (sample_grads e XY yTrue) [0..<N] (?W0, ?B0, 0)")
  have ok0: "shapes_ok szs ?W0 ?B0" using ok by (rule zero_acc_shapes)
  from batch_loop_spec[OF ok0[unfolded szs_def], of XY yTrue N] f
  have r: "acc_rel szs (\<lambda>l i j. \<Sum>n<N. tr_a (tr n) ! l ! i * ds n ! l ! j)
               (\<lambda>l j. \<Sum>n<N. ds n ! l ! j) (?W0, ?B0) (aW, aB)"
    and ls: "ls = (\<Sum>n<N. sample_loss (task e) (yhat (tr n)) (yTrue ! n))"
    by (simp_all add: szs_def tr_def ds_def)
  note rd = acc_relD[OF r, unfolded fst_conv snd_conv]
  have g: "g = \<lparr>gW = map (map (map (\<lambda>v. js_div v N))) aW, gB = map (map (\<lambda>v. js_div v N)) aB,
              loss = js_div ls N\<rparr>"
    using f by (simp add: g_def computeBatchGrads_def Let_def N_def)
  show "shapes_ok szs (gW g) (gB g)" unfolding g using rd(1) by (simp add: zero_acc_shapes)
  show "loss g = js_div (\<Sum>n<N. sample_loss (task e) (yhat (tr n)) (yTrue ! n)) N"
    by (simp add: g ls)
  { assume l: "l < length szs - 1" and j: "j < szs ! (l + 1)"
    { assume i: "i < szs ! l"
      have "gW g ! l ! i ! j = js_div (aW ! l ! i ! j) N"
        by (simp add: g map3_nth(1)[OF rd(1) l i j])
      also have "aW ! l ! i ! j = ?W0 ! l ! i ! j + (\<Sum>n<N. tr_a (tr n) ! l ! i * ds n ! l ! j)"
        by (rule rd(2)[OF l i j])
      also have "?W0 ! l ! i ! j = 0" by (simp add: map3_nth(1)[OF ok l i j])
      finally show "gW g ! l ! i ! j = js_div (\<Sum>n<N. tr_a (tr n) ! l ! i * ds n ! l ! j) N"
        by simp }
    have "gB g ! l ! j = js_div (aB ! l ! j) N"
      by (simp add: g map3_nth(2)[OF rd(1) l j])
    also have "aB ! l ! j = ?B0 ! l ! j + (\<Sum>n<N. ds n ! l ! j)" by (rule rd(3)[OF l j])
    also have "?B0 ! l ! j = 0" by (simp add: map3_nth(2)[OF ok l j])
    finally show "gB g ! l ! j = js_div (\<Sum>n<N. ds n ! l ! j) N" by simp }
qed

section \<open>Update step\<close>

lemma mapi_length: "length (mapi f xs) = length xs"
  by (simp add: mapi_def)

lemma mapi_nth: "i < length xs \<Longrightarrow> mapi f xs ! i = f i (xs ! i)"
  by (simp add: mapi_def)

lemma mapi_cong: "(\<And>i. i < length xs \<Longrightarrow> f i (xs ! i) = g (xs ! i)) \<Longrightarrow> mapi f xs = map g xs"
  by (rule nth_equalityI) (simp_all add: mapi_def)

lemma step_values:
  fixes e XY yTrue lr
  defines "szs \<equiv> layer_sizes (H e)" and "g \<equiv> computeBatchGrads e XY yTrue"
  assumes ok: "shapes_ok szs (W e) (B e)" and st: "step e XY yTrue lr = (W', B', ls)"
  shows "shapes_ok szs W' B'" and "ls = loss g"
    and "l < length szs - 1 \<Longrightarrow> i < szs ! l \<Longrightarrow> j < szs ! (l + 1) \<Longrightarrow>
           W' ! l ! i ! j = js_sub (W e ! l ! i ! j) (js_mul lr (gW g ! l ! i ! j))"
    and "l < length szs - 1 \<Longrightarrow> j < szs ! (l + 1) \<Longrightarrow>
           B' ! l ! j = js_sub (B e ! l ! j) (js_mul lr (gB g ! l ! j))"
proof -
  note d = shapes_okD[OF ok]
  from st have W': "W' = mapi (\<lambda>l layer. mapi (\<lambda>i row.
                 mapi (\<lambda>j w. js_sub w (js_mul lr (gW g ! l ! i ! j))) row) layer) (W e)"
    and B': "B' = mapi (\<lambda>l arr. mapi (\<lambda>j bv. js_sub bv (js_mul lr (gB g ! l ! j))) arr) (B e)"
    and "ls = loss g" by (simp_all add: step_def Let_def g_def)
  then show "ls = loss g" by simp
  have w: "W' ! l ! i ! j = js_sub (W e ! l ! i ! j) (js_mul lr (gW g ! l ! i ! j))"
    if "l < length szs - 1" "i < szs ! l" "j < szs ! (l + 1)" for l i j
    using that d by (simp add: W' mapi_nth)
  have b: "B' ! l ! j = js_sub (B e ! l ! j) (js_mul lr (gB g ! l ! j))"
    if "l < length szs - 1" "j < szs ! (l + 1)" for l j
    using that d by (simp add: B' mapi_nth)
  show "shapes_ok szs W' B'"
    by (rule shapes_okI) (use d in \<open>simp_all add: W' B' mapi_nth mapi_length\<close>)
  show "l < length szs - 1 \<Longrightarrow> i < szs ! l \<Longrightarrow> j < szs ! (l + 1) \<Longrightarrow>
           W' ! l ! i ! j = js_sub (W e ! l ! i ! j) (js_mul lr (gW g ! l ! i ! j))" by (rule w)
  show "l < length szs - 1 \<Longrightarrow> j < szs ! (l + 1) \<Longrightarrow>
           B' ! l ! j = js_sub (B e ! l ! j) (js_mul lr (gB g ! l ! j))" by (rule b)
qed

lemma empty_batch_grads:
  "computeBatchGrads e [] yTrue = \<lparr>gW = map (map (map (\<lambda>_. NaN))) (W e),
       gB = map (map (\<lambda>_. NaN)) (B e), loss = NaN\<rparr>"
  by (simp add: computeBatchGrads_def js_div_def comp_def)

lemma empty_batch_step:
  "step e [] yTrue lr = (map (map (map (\<lambda>_. NaN))) (W e), map (map (\<lambda>_. NaN)) (B e), NaN)"
proof -
  have "mapi (\<lambda>l layer. mapi (\<lambda>i row. mapi (\<lambda>j w. js_sub w (js_mul lr
            (map (map (map (\<lambda>_. NaN))) (W e) ! l ! i ! j))) row) layer) (W e)
        = map (map (map (\<lambda>_. NaN))) (W e)"
    by (intro mapi_cong) simp
  moreover have "mapi (\<lambda>l arr. mapi (\<lambda>j bv. js_sub bv (js_mul lr
            (map (map (\<lambda>_. NaN)) (B e) ! l ! j))) arr) (B e) = map (map (\<lambda>_. NaN)) (B e)"
    by (intro mapi_cong) simp
  ultimately show ?thesis by (simp add: step_def empty_batch_grads)
qed

section \<open>The gradients as derivatives\<close>

lemma act_f_deriv:
  assumes "actv = Relu \<Longrightarrow> z \<noteq> 0"
  shows "(act_f actv has_real_derivative act_df actv z) (at z)"
proof (cases actv)
  case Tanh
  have "(tanh has_real_derivative 1 - (tanh z)\<^sup>2) (at z)"
    by (auto intro!: derivative_eq_intros)
  moreover have "act_f Tanh = tanh" by (rule ext) simp
  ultimately show ?thesis using Tanh by simp
next
  case Relu
  with assms have z: "z \<noteq> 0" by simp
  show ?thesis
  proof (cases "z > 0")
    case True
    have "((\<lambda>v. v) has_real_derivative 1) (at z)" by (auto intro!: derivative_eq_intros)
    then have "(act_f Relu has_real_derivative 1) (at z)"
      by (rule has_field_derivative_transform_within_open[where S = "{0<..}"]) (use True in auto)
    with True Relu show ?thesis by simp
  next
    case False
    with z have neg: "z < 0" by simp
    have "((\<lambda>v. 0) has_real_derivative 0) (at z)" by (auto intro!: derivative_eq_intros)
    then have "(act_f Relu has_real_derivative 0) (at z)"
      by (rule has_field_derivative_transform_within_open[where S = "{..<0}"]) (use neg in auto)
    with neg Relu show ?thesis by simp
  qed
qed

lemma sigmoid_range: "0 < 1 / (1 + exp (- z :: real))" "1 / (1 + exp (- z :: real)) < 1"
proof -
  have "0 < exp (- z)" by simp
  then have 1: "1 < 1 + exp (- z)" by simp
  then have 0: "0 < 1 + exp (- z)" by linarith
  from 0 show "0 < 1 / (1 + exp (- z))" by simp
  show "1 / (1 + exp (- z)) < 1" by (subst divide_less_eq_1_pos[OF 0]) simp
qed

lemma bce_sigmoid: "bce_free (1 / (1 + exp (- z))) t = ln (1 + exp (- z)) + (1 - t) * z"
proof -
  have p: "0 < 1 + exp (- z)" by (simp add: add_pos_pos)
  have a: "ln (1 / (1 + exp (- z))) = - ln (1 + exp (- z))" using p by (simp add: ln_div)
  have "1 - 1 / (1 + exp (- z)) = exp (- z) / (1 + exp (- z))" using p by (simp add: field_simps)
  moreover have "ln (exp (- z) / (1 + exp (- z))) = - z - ln (1 + exp (- z))"
    using p by (simp add: ln_div)
  ultimately have b: "ln (1 - 1 / (1 + exp (- z))) = - z - ln (1 + exp (- z))" by simp
  show ?thesis unfolding bce_free_def a b by (simp add: algebra_simps)
qed

lemma bce_sigmoid_deriv:
  "((\<lambda>z. bce_free (1 / (1 + exp (- z))) t) has_real_derivative (1 / (1 + exp (- z)) - t)) (at z)"
proof -
  have p: "0 < 1 + exp (- z)" by (simp add: add_pos_pos)
  have d: "((\<lambda>z. ln (1 + exp (- z)) + (1 - t) * z) has_real_derivative
           (- exp (- z) / (1 + exp (- z)) + (1 - t))) (at z)"
    using p by (auto intro!: derivative_eq_intros)
  have e: "- exp (- z) / (1 + exp (- z)) + (1 - t) = 1 / (1 + exp (- z)) - t"
    using p by (simp add: field_simps)
  have f: "(\<lambda>z. bce_free (1 / (1 + exp (- z))) t) = (\<lambda>z. ln (1 + exp (- z)) + (1 - t) * z)"
    by (rule ext) (rule bce_sigmoid)
  show ?thesis unfolding f using d unfolding e .
qed

lemma affine_layer_deriv:
  fixes a :: "real \<Rightarrow> nat \<Rightarrow> real"
  assumes "\<And>i. i < n \<Longrightarrow> ((\<lambda>v. a v i) has_real_derivative da i) (at 0)"
  shows "((\<lambda>v. (b + v * db) + (\<Sum>i<n. a v i * (w i + v * dw i))) has_real_derivative
           (db + (\<Sum>i<n. da i * w i + a 0 i * dw i))) (at 0)"
  by (auto intro!: derivative_eq_intros assms sum.cong)

lemma eps_loss_less:
  assumes "0 < p" "p < 1" "t = 0 \<or> t = 1"
  shows "sample_loss Classification p t < bce_free p t"
proof -
  have "ln p < ln (p + 1 / 10 ^ 8)" "ln (1 - p) < ln (1 - p + 1 / 10 ^ 8)"
    using assms by simp_all
  with assms(3) show ?thesis by (auto simp: sample_loss_def bce_free_def)
qed

lemma layer_sizes_last: "layer_sizes h ! (length (layer_sizes h) - 1) = 1"
  by (simp add: layer_sizes_def nth_append)

lemma layer_sizes_ge2: "2 \<le> length (layer_sizes h)"
  by (simp add: layer_sizes_def)

lemma forward_z_nth:
  "l < length (layer_sizes (H e)) - 1 \<Longrightarrow> j < layer_sizes (H e) ! (l + 1) \<Longrightarrow>
   tr_z (forward e x y) ! l ! j
     = B e ! l ! j + (\<Sum>i<layer_sizes (H e) ! l. tr_a (forward e x y) ! l ! i * W e ! l ! i ! j)"
  by (simp add: forward_trace(4) layer_z_nth)

lemma forward_z_length:
  "l < length (layer_sizes (H e)) - 1 \<Longrightarrow>
   length (tr_z (forward e x y) ! l) = layer_sizes (H e) ! (l + 1)"
  by (simp add: forward_trace(4) layer_z_length)

lemma forward_a_hidden:
  "l < length (layer_sizes (H e)) - 2 \<Longrightarrow> i < layer_sizes (H e) ! (l + 1) \<Longrightarrow>
   tr_a (forward e x y) ! Suc l ! i = act_f (actFun e) (tr_z (forward e x y) ! l ! i)"
  using forward_z_length[of l e x y] by (simp add: forward_trace(5))

lemma forward_yhat:
  "yhat (forward e x y)
     = out_act (task e) (tr_z (forward e x y) ! (length (layer_sizes (H e)) - 2) ! 0)"
proof -
  let ?L = "length (layer_sizes (H e))"
  have L: "2 \<le> ?L" by (rule layer_sizes_ge2)
  then have "?L - 2 < ?L - 1" by simp
  from forward_z_length[OF this, of x y] have "length (tr_z (forward e x y) ! (?L - 2)) = 1"
    using layer_sizes_last[of "H e"] L by (simp add: numeral_2_eq_2 Suc_diff_Suc)
  then show ?thesis using forward_trace(6,7)[of e x y] by simp
qed

lemma perturb_fields [simp]:
  "H (perturb e dW dB v) = H e" "actFun (perturb e dW dB v) = actFun e"
  "task (perturb e dW dB v) = task e"
  by (simp_all add: perturb_def)

lemma perturb_nth:
  assumes ok: "shapes_ok szs (W e) (B e)" and l: "l < length szs - 1" and j: "j < szs ! (l + 1)"
  shows "i < szs ! l \<Longrightarrow> W (perturb e dW dB v) ! l ! i ! j = W e ! l ! i ! j + v * dW l i j"
    and "B (perturb e dW dB v) ! l ! j = B e ! l ! j + v * dB l j"
  using shapes_okD[OF ok] l j by (simp_all add: perturb_def mapi_nth)

lemma mapi_id: "(\<And>i. i < length xs \<Longrightarrow> f i (xs ! i) = xs ! i) \<Longrightarrow> mapi f xs = xs"
  by (rule nth_equalityI) (simp_all add: mapi_def)

lemma perturb_zero: "perturb e dW dB 0 = e"
proof -
  have "mapi (\<lambda>l. mapi (\<lambda>i. mapi (\<lambda>j w. w + 0 * dW l i j))) (W e) = W e"
    by (intro mapi_id) simp
  moreover have "mapi (\<lambda>l. mapi (\<lambda>j b. b + 0 * dB l j)) (B e) = B e"
    by (intro mapi_id) simp
  ultimately show ?thesis by (simp add: perturb_def)
qed

lemma perturb_z:
  assumes ok: "shapes_ok (layer_sizes (H e)) (W e) (B e)"
    and l: "l < length (layer_sizes (H e)) - 1" and j: "j < layer_sizes (H e) ! (l + 1)"
  shows "tr_z (forward (perturb e dW dB v) x y) ! l ! j
     = (B e ! l ! j + v * dB l j)
       + (\<Sum>i<layer_sizes (H e) ! l.
            tr_a (forward (perturb e dW dB v) x y) ! l ! i * (W e ! l ! i ! j + v * dW l i j))"
proof -
  have "tr_z (forward (perturb e dW dB v) x y) ! l ! j
      = B (perturb e dW dB v) ! l ! j
        + (\<Sum>i<layer_sizes (H e) ! l.
            tr_a (forward (perturb e dW dB v) x y) ! l ! i * W (perturb e dW dB v) ! l ! i ! j)"
    using forward_z_nth[of l "perturb e dW dB v" j x y] l j by simp
  also have "\<dots> = (B e ! l ! j + v * dB l j)
       + (\<Sum>i<layer_sizes (H e) ! l.
            tr_a (forward (perturb e dW dB v) x y) ! l ! i * (W e ! l ! i ! j + v * dW l i j))"
    using perturb_nth[OF ok l j] by simp
  finally show ?thesis .
qed

lemma perturb_z_deriv:
  assumes ok: "shapes_ok (layer_sizes (H e)) (W e) (B e)"
    and l: "l < length (layer_sizes (H e)) - 1" and j: "j < layer_sizes (H e) ! (l + 1)"
    and a: "\<And>i. i < layer_sizes (H e) ! l \<Longrightarrow>
              ((\<lambda>v. tr_a (forward (perturb e dW dB v) x y) ! l ! i) has_real_derivative
                 fwd_dA e (forward e x y) dW dB l i) (at 0)"
  shows "((\<lambda>v. tr_z (forward (perturb e dW dB v) x y) ! l ! j) has_real_derivative
            fwd_dZ e (forward e x y) dW dB l j) (at 0)"
proof -
  have "((\<lambda>v. (B e ! l ! j + v * dB l j)
       + (\<Sum>i<layer_sizes (H e) ! l.
            tr_a (forward (perturb e dW dB v) x y) ! l ! i * (W e ! l ! i ! j + v * dW l i j)))
      has_real_derivative
        (dB l j + (\<Sum>i<layer_sizes (H e) ! l.
            fwd_dA e (forward e x y) dW dB l i * W e ! l ! i ! j
            + tr_a (forward (perturb e dW dB 0) x y) ! l ! i * dW l i j))) (at 0)"
    by (rule affine_layer_deriv) (rule a)
  then show ?thesis
    unfolding perturb_z[OF ok l j, symmetric] perturb_zero fwd_dZ_def .
qed

lemma perturb_a_deriv:
  fixes e dW dB x y
  defines "L \<equiv> length (layer_sizes (H e))"
  assumes ok: "shapes_ok (layer_sizes (H e)) (W e) (B e)"
    and smooth: "actFun e = Relu \<Longrightarrow>
         \<forall>l<L - 2. \<forall>i<layer_sizes (H e) ! (l + 1). tr_z (forward e x y) ! l ! i \<noteq> 0"
  shows "l \<le> L - 2 \<Longrightarrow> i < layer_sizes (H e) ! l \<Longrightarrow>
           ((\<lambda>v. tr_a (forward (perturb e dW dB v) x y) ! l ! i) has_real_derivative
              fwd_dA e (forward e x y) dW dB l i) (at 0)"
proof (induction l arbitrary: i)
  case 0
  have "(\<lambda>v. tr_a (forward (perturb e dW dB v) x y) ! 0 ! i) = (\<lambda>v. [x, y] ! i)"
    by (simp add: forward_trace(3))
  then show ?case by simp
next
  case (Suc l)
  then have l2: "l < L - 2" and i: "i < layer_sizes (H e) ! (l + 1)" by simp_all
  then have l1: "l < length (layer_sizes (H e)) - 1" by (simp add: L_def)
  have ih: "((\<lambda>v. tr_a (forward (perturb e dW dB v) x y) ! l ! k) has_real_derivative
              fwd_dA e (forward e x y) dW dB l k) (at 0)" if "k < layer_sizes (H e) ! l" for k
    using Suc.IH[OF _ that] l2 by simp
  have z: "((\<lambda>v. tr_z (forward (perturb e dW dB v) x y) ! l ! i) has_real_derivative
            fwd_dZ e (forward e x y) dW dB l i) (at 0)"
    by (rule perturb_z_deriv[OF ok l1 i ih])
  have nz: "actFun e = Relu \<Longrightarrow> tr_z (forward (perturb e dW dB 0) x y) ! l ! i \<noteq> 0"
    using smooth l2 i by (simp add: perturb_zero)
  have "((\<lambda>v. act_f (actFun e) (tr_z (forward (perturb e dW dB v) x y) ! l ! i))
          has_real_derivative
            act_df (actFun e) (tr_z (forward (perturb e dW dB 0) x y) ! l ! i)
              * fwd_dZ e (forward e x y) dW dB l i) (at 0)"
    by (rule DERIV_chain'[OF z act_f_deriv[OF nz]])
  moreover have "(\<lambda>v. tr_a (forward (perturb e dW dB v) x y) ! Suc l ! i)
      = (\<lambda>v. act_f (actFun e) (tr_z (forward (perturb e dW dB v) x y) ! l ! i))"
    using forward_a_hidden[of l "perturb e dW dB v" i x y for v] l2 i by (simp add: L_def)
  ultimately show ?case by (simp add: perturb_zero fwd_dZ_def)
qed

lemma perturb_loss_deriv:
  fixes e dW dB x y
  defines "L \<equiv> length (layer_sizes (H e))"
  assumes ok: "shapes_ok (layer_sizes (H e)) (W e) (B e)"
    and cls: "task e = Classification"
    and smooth: "actFun e = Relu \<Longrightarrow>
         \<forall>l<L - 2. \<forall>i<layer_sizes (H e) ! (l + 1). tr_z (forward e x y) ! l ! i \<noteq> 0"
  shows "((\<lambda>v. bce_free (yhat (forward (perturb e dW dB v) x y)) t) has_real_derivative
            (yhat (forward e x y) - t) * fwd_dZ e (forward e x y) dW dB (L - 2) 0) (at 0)"
proof -
  have L: "2 \<le> L" unfolding L_def by (rule layer_sizes_ge2)
  then have l1: "L - 2 < length (layer_sizes (H e)) - 1" by (simp add: L_def)
  have "layer_sizes (H e) ! (L - 2 + 1) = 1"
    using layer_sizes_last[of "H e"] L by (simp add: L_def numeral_2_eq_2 Suc_diff_Suc)
  then have j: "0 < layer_sizes (H e) ! (L - 2 + 1)" by simp
  have z: "((\<lambda>v. tr_z (forward (perturb e dW dB v) x y) ! (L - 2) ! 0) has_real_derivative
            fwd_dZ e (forward e x y) dW dB (L - 2) 0) (at 0)"
    by (rule perturb_z_deriv[OF ok l1 j])
       (rule perturb_a_deriv[OF ok smooth[unfolded L_def], folded L_def], simp_all)
  let ?z0 = "tr_z (forward (perturb e dW dB 0) x y) ! (L - 2) ! 0"
  have "((\<lambda>v. bce_free (1 / (1 + exp (- (tr_z (forward (perturb e dW dB v) x y) ! (L - 2) ! 0)))) t)
          has_real_derivative (1 / (1 + exp (- ?z0)) - t) * fwd_dZ e (forward e x y) dW dB (L - 2) 0)
          (at 0)"
    by (rule DERIV_chain'[OF z bce_sigmoid_deriv])
  moreover have "yhat (forward (perturb e dW dB v) x y)
      = 1 / (1 + exp (- (tr_z (forward (perturb e dW dB v) x y) ! (L - 2) ! 0)))" for v
    using forward_yhat[of "perturb e dW dB v" x y] cls by (simp add: out_act_def L_def)
  moreover have "yhat (forward e x y) = 1 / (1 + exp (- (tr_z (forward e x y) ! (L - 2) ! 0)))"
    using forward_yhat[of e x y] cls by (simp add: out_act_def L_def)
  ultimately show ?thesis using perturb_zero[of e dW dB] by simp
qed

lemma adjoint_split:
  "(\<Sum>j<m. d j * fwd_dZ e tr dW dB l j)
     = (\<Sum>j<m. d j * (dB l j + (\<Sum>i<layer_sizes (H e) ! l. tr_a tr ! l ! i * dW l i j)))
       + (\<Sum>k<layer_sizes (H e) ! l. fwd_dA e tr dW dB l k * (\<Sum>j<m. d j * W e ! l ! k ! j))"
proof -
  let ?n = "layer_sizes (H e) ! l"
  have "(\<Sum>j<m. d j * fwd_dZ e tr dW dB l j)
      = (\<Sum>j<m. d j * (dB l j + (\<Sum>i<?n. tr_a tr ! l ! i * dW l i j))
                + (\<Sum>k<?n. d j * (fwd_dA e tr dW dB l k * W e ! l ! k ! j)))"
    by (simp add: fwd_dZ_def sum.distrib algebra_simps sum_distrib_left)
  also have "\<dots> = (\<Sum>j<m. d j * (dB l j + (\<Sum>i<?n. tr_a tr ! l ! i * dW l i j)))
                + (\<Sum>j<m. \<Sum>k<?n. d j * (fwd_dA e tr dW dB l k * W e ! l ! k ! j))"
    by (simp add: sum.distrib)
  also have "(\<Sum>j<m. \<Sum>k<?n. d j * (fwd_dA e tr dW dB l k * W e ! l ! k ! j))
           = (\<Sum>k<?n. \<Sum>j<m. d j * (fwd_dA e tr dW dB l k * W e ! l ! k ! j))"
    by (rule sum.swap)
  also have "\<dots> = (\<Sum>k<?n. fwd_dA e tr dW dB l k * (\<Sum>j<m. d j * W e ! l ! k ! j))"
    by (simp add: sum_distrib_left algebra_simps)
  finally show ?thesis .
qed

lemma adjoint_identity:
  fixes e x y t dW dB
  defines "L \<equiv> length (layer_sizes (H e))" and "tr \<equiv> forward e x y"
    and "ds \<equiv> sample_deltas e (x, y) t"
  shows "l \<le> L - 2 \<Longrightarrow>
     (\<Sum>j<layer_sizes (H e) ! (l + 1). ds ! l ! j * fwd_dZ e tr dW dB l j)
       = (\<Sum>l'<Suc l. layer_dot e tr ds dW dB l')"
proof (induction l)
  case 0
  show ?case by (simp add: adjoint_split layer_dot_def)
next
  case (Suc l)
  then have l2: "l < L - 2" by simp
  let ?n = "layer_sizes (H e) ! (l + 1)" and ?m = "layer_sizes (H e) ! (l + 2)"
  have d: "ds ! l ! k = act_df (actFun e) (tr_z tr ! l ! k)
              * (\<Sum>j<?m. ds ! (l + 1) ! j * W e ! (l + 1) ! k ! j)" if "k < ?n" for k
    using sample_deltas_spec(3)[of l e k "(x, y)" t] l2 that by (simp add: L_def tr_def ds_def)
  have "(\<Sum>j<layer_sizes (H e) ! (Suc l + 1). ds ! Suc l ! j * fwd_dZ e tr dW dB (Suc l) j)
      = layer_dot e tr ds dW dB (Suc l)
        + (\<Sum>k<?n. fwd_dA e tr dW dB (Suc l) k * (\<Sum>j<?m. ds ! Suc l ! j * W e ! Suc l ! k ! j))"
    by (simp add: adjoint_split layer_dot_def)
  also have "(\<Sum>k<?n. fwd_dA e tr dW dB (Suc l) k * (\<Sum>j<?m. ds ! Suc l ! j * W e ! Suc l ! k ! j))
      = (\<Sum>k<?n. ds ! l ! k * fwd_dZ e tr dW dB l k)"
    by (rule sum.cong) (simp_all add: d fwd_dZ_def)
  also have "\<dots> = (\<Sum>l'<Suc l. layer_dot e tr ds dW dB l')"
    using Suc.IH l2 by simp
  finally show ?case by simp
qed

lemma sample_adjoint:
  fixes e x y t dW dB
  defines "L \<equiv> length (layer_sizes (H e))" and "tr \<equiv> forward e x y"
    and "ds \<equiv> sample_deltas e (x, y) t"
  shows "(yhat tr - t) * fwd_dZ e tr dW dB (L - 2) 0 = (\<Sum>l<L - 1. layer_dot e tr ds dW dB l)"
proof -
  have L: "2 \<le> L" unfolding L_def by (rule layer_sizes_ge2)
  have one: "layer_sizes (H e) ! (L - 2 + 1) = 1"
    using layer_sizes_last[of "H e"] L by (simp add: L_def numeral_2_eq_2 Suc_diff_Suc)
  have "ds ! (L - 2) = [yhat tr - t]"
    using sample_deltas_spec(2)[of e "(x, y)" t] by (simp add: ds_def L_def tr_def)
  then have "(yhat tr - t) * fwd_dZ e tr dW dB (L - 2) 0
      = (\<Sum>j<layer_sizes (H e) ! (L - 2 + 1). ds ! (L - 2) ! j * fwd_dZ e tr dW dB (L - 2) j)"
    unfolding one by simp
  also have "\<dots> = (\<Sum>l'<Suc (L - 2). layer_dot e tr ds dW dB l')"
    using adjoint_identity[where l = "L - 2" and e = e and dW = dW and dB = dB and x = x and y = y
        and t = t] by (simp add: L_def tr_def ds_def)
  also have "Suc (L - 2) = L - 1" using L by simp
  finally show ?thesis .
qed

lemma scale_dot:
  fixes S :: "nat \<Rightarrow> real"
  shows "((\<Sum>i<k. S i * w i) + T * b) / c = (\<Sum>i<k. (S i / c) * w i) + (T / c) * b"
  by (simp add: add_divide_distrib sum_divide_distrib)

lemma grad_dot_rearrange:
  fixes d :: "nat \<Rightarrow> nat \<Rightarrow> nat \<Rightarrow> real" and a :: "nat \<Rightarrow> nat \<Rightarrow> nat \<Rightarrow> real"
  shows "(\<Sum>n<N. \<Sum>l<K. \<Sum>j<m l. d n l j * (dB l j + (\<Sum>i<k l. a n l i * dW l i j))) / c
       = (\<Sum>l<K. \<Sum>j<m l. (\<Sum>i<k l. ((\<Sum>n<N. a n l i * d n l j) / c) * dW l i j)
                             + ((\<Sum>n<N. d n l j) / c) * dB l j)"
proof -
  have inner: "(\<Sum>n<N. d n l j * (dB l j + (\<Sum>i<k l. a n l i * dW l i j)))
        = (\<Sum>i<k l. (\<Sum>n<N. a n l i * d n l j) * dW l i j) + (\<Sum>n<N. d n l j) * dB l j" for l j
  proof -
    have "(\<Sum>n<N. d n l j * (dB l j + (\<Sum>i<k l. a n l i * dW l i j)))
        = (\<Sum>n<N. d n l j * dB l j) + (\<Sum>n<N. \<Sum>i<k l. a n l i * d n l j * dW l i j)"
      by (simp add: sum.distrib algebra_simps sum_distrib_left)
    also have "(\<Sum>n<N. \<Sum>i<k l. a n l i * d n l j * dW l i j)
             = (\<Sum>i<k l. \<Sum>n<N. a n l i * d n l j * dW l i j)" by (rule sum.swap)
    finally show ?thesis by (simp add: sum_distrib_right)
  qed
  have "(\<Sum>n<N. \<Sum>l<K. \<Sum>j<m l. d n l j * (dB l j + (\<Sum>i<k l. a n l i * dW l i j)))
      = (\<Sum>l<K. \<Sum>n<N. \<Sum>j<m l. d n l j * (dB l j + (\<Sum>i<k l. a n l i * dW l i j)))"
    by (rule sum.swap)
  also have "\<dots> = (\<Sum>l<K. \<Sum>j<m l. \<Sum>n<N. d n l j * (dB l j + (\<Sum>i<k l. a n l i * dW l i j)))"
    by (rule sum.cong[OF refl]) (rule sum.swap)
  also have "\<dots> = (\<Sum>l<K. \<Sum>j<m l. (\<Sum>i<k l. (\<Sum>n<N. a n l i * d n l j) * dW l i j)
                             + (\<Sum>n<N. d n l j) * dB l j)"
    by (simp add: inner)
  finally have "(\<Sum>n<N. \<Sum>l<K. \<Sum>j<m l. d n l j * (dB l j + (\<Sum>i<k l. a n l i * dW l i j))) / c
      = (\<Sum>l<K. \<Sum>j<m l. ((\<Sum>i<k l. (\<Sum>n<N. a n l i * d n l j) * dW l i j)
                             + (\<Sum>n<N. d n l j) * dB l j) / c)"
    by (simp only: sum_divide_distrib)
  then show ?thesis by (simp only: scale_dot)
qed

lemma mean_bce_deriv:
  fixes e XY yTrue dW dB
  defines "szs \<equiv> layer_sizes (H e)" and "L \<equiv> length (layer_sizes (H e))"
    and "N \<equiv> length XY"
    and "tr \<equiv> \<lambda>n. forward e (fst (XY ! n)) (snd (XY ! n))"
    and "ds \<equiv> \<lambda>n. sample_deltas e (XY ! n) (yTrue ! n)"
  assumes ok: "shapes_ok szs (W e) (B e)" and cls: "task e = Classification"
    and smooth: "actFun e = Relu \<Longrightarrow>
           \<forall>n<N. \<forall>l<L - 2. \<forall>i<szs ! (l + 1). tr_z (tr n) ! l ! i \<noteq> 0"
  shows "((\<lambda>v. mean_bce_free (perturb e dW dB v) XY yTrue) has_real_derivative
           (\<Sum>l<L - 1. \<Sum>j<szs ! (l + 1).
               (\<Sum>i<szs ! l. ((\<Sum>n<N. tr_a (tr n) ! l ! i * ds n ! l ! j) / real N) * dW l i j)
               + ((\<Sum>n<N. ds n ! l ! j) / real N) * dB l j)) (at 0)"
proof -
  have each: "((\<lambda>v. bce_free (yhat (forward (perturb e dW dB v) (fst (XY ! n)) (snd (XY ! n))))
                   (yTrue ! n)) has_real_derivative
             (\<Sum>l<L - 1. layer_dot e (tr n) (ds n) dW dB l)) (at 0)" if n: "n < N" for n
  proof -
    have sm: "actFun e = Relu \<Longrightarrow> \<forall>l<length (layer_sizes (H e)) - 2.
         \<forall>i<layer_sizes (H e) ! (l + 1).
            tr_z (forward e (fst (XY ! n)) (snd (XY ! n))) ! l ! i \<noteq> 0"
      using smooth n by (simp add: L_def szs_def tr_def)
    from perturb_loss_deriv[OF ok[unfolded szs_def] cls sm, of dW dB "yTrue ! n"]
    show ?thesis
      using sample_adjoint[where e = e and x = "fst (XY ! n)" and y = "snd (XY ! n)"
          and t = "yTrue ! n" and dW = dW and dB = dB]
      by (simp add: tr_def ds_def L_def)
  qed
  have "((\<lambda>v. (\<Sum>n<N. bce_free (yhat (forward (perturb e dW dB v) (fst (XY ! n)) (snd (XY ! n))))
                   (yTrue ! n)) / real N) has_real_derivative
          (\<Sum>n<N. \<Sum>l<L - 1. layer_dot e (tr n) (ds n) dW dB l) / real N) (at 0)"
    by (intro DERIV_cdivide DERIV_sum) (use each in simp)
  then have "((\<lambda>v. mean_bce_free (perturb e dW dB v) XY yTrue) has_real_derivative
          (\<Sum>n<N. \<Sum>l<L - 1. layer_dot e (tr n) (ds n) dW dB l) / real N) (at 0)"
    by (simp add: mean_bce_free_def N_def)
  then show ?thesis
    unfolding layer_dot_def szs_def[symmetric] by (simp only: grad_dot_rearrange)
qed

lemma forward_yhat_range:
  assumes "task e = Classification"
  shows "0 < yhat (forward e x y)" "yhat (forward e x y) < 1"
  using forward_yhat[of e x y] assms sigmoid_range by (simp_all add: out_act_def)

lemma eps_loss_mean_less:
  fixes e XY yTrue
  defines "N \<equiv> length XY" and "tr \<equiv> \<lambda>n. forward e (fst (XY ! n)) (snd (XY ! n))"
  assumes cls: "task e = Classification" and ne: "XY \<noteq> []"
    and bin: "\<forall>n<N. yTrue ! n = 0 \<or> yTrue ! n = 1"
  shows "(\<Sum>n<N. sample_loss Classification (yhat (tr n)) (yTrue ! n)) / real N
           < mean_bce_free e XY yTrue"
proof -
  have N: "0 < N" using ne by (simp add: N_def)
  have "(\<Sum>n<N. sample_loss Classification (yhat (tr n)) (yTrue ! n))
        < (\<Sum>n<N. bce_free (yhat (tr n)) (yTrue ! n))"
  proof (rule sum_strict_mono)
    show "finite {..<N}" by simp
    show "{..<N} \<noteq> {}" using N by auto
    fix n assume "n \<in> {..<N}"
    then have "yTrue ! n = 0 \<or> yTrue ! n = 1" using bin by simp
    then show "sample_loss Classification (yhat (tr n)) (yTrue ! n) < bce_free (yhat (tr n)) (yTrue ! n)"
      using forward_yhat_range[OF cls] by (intro eps_loss_less) (simp_all add: tr_def)
  qed
  then show ?thesis using N by (simp add: mean_bce_free_def N_def tr_def divide_strict_right_mono)
qed

section \<open>Evaluation at concrete engines\<close>

lemma upt1: "[0..<1] = [0]" by (simp add: upt_rec)

lemma kink_yhat:
  "yhat (forward (perturb kink_engine (\<lambda>_ _ _. 0) (\<lambda>l j. if l = 0 \<and> j = 0 then 1 else 0) v) 0 0)
     = 1 / (1 + exp (- (if v > 0 then v else 0)))"
  by (simp add: forward_def forward_layer_def layer_z_def perturb_def mapi_def kink_engine_def
      layer_sizes_def out_act_def Let_def upt1 upt2)

lemma kink_loss:
  "mean_bce_free (perturb kink_engine (\<lambda>_ _ _. 0) (\<lambda>l j. if l = 0 \<and> j = 0 then 1 else 0) v)
      [(0, 0)] [1] = ln (1 + exp (- (if v > 0 then v else 0)))"
  by (simp add: mean_bce_free_def kink_yhat bce_sigmoid del: One_nat_def)

lemma kink_shapes: "shapes_ok (layer_sizes (H kink_engine)) (W kink_engine) (B kink_engine)"
  by (simp add: shapes_ok_def kink_engine_def layer_sizes_def upt2 numeral_2_eq_2)

lemma kink_z: "tr_z (forward kink_engine 0 0) ! 0 ! 0 = 0"
  by (simp add: forward_def forward_layer_def layer_z_def kink_engine_def
      layer_sizes_def out_act_def Let_def upt1 upt2)

lemma kink_gB: "gB (computeBatchGrads kink_engine [(0, 0)] [1]) ! 0 ! 0 = Fin 0"
proof -
  have l: "0 < length (layer_sizes (H kink_engine)) - 1" and j: "0 < layer_sizes (H kink_engine) ! (0 + 1)"
    by (simp_all add: kink_engine_def layer_sizes_def)
  have "sample_deltas kink_engine (0, 0) 1 ! 0 ! 0 = 0"
    using sample_deltas_spec(3)[of 0 kink_engine 0 "(0, 0)" 1] kink_z
    by (simp add: kink_engine_def layer_sizes_def)
  then show ?thesis
    using computeBatchGrads_values(3)[OF kink_shapes l j, of "[(0, 0)]" "[1]"]
    by (simp add: js_div_def)
qed

lemma ex_shapes: "shapes_ok (layer_sizes (H ex_engine)) (W ex_engine) (B ex_engine)"
  by (simp add: shapes_ok_def ex_engine_def layer_sizes_def upt2 numeral_2_eq_2)

lemma useMLP_example:
  "useMLP [0] Tanh Classification [1 / 2, 1 / 2] = Some (zero_width_engine, [])"
  by (simp add: useMLP_def initWeights_def initBiases_def layer_sizes_def upt2 randn_def
      numeral_2_eq_2 zero_width_engine_def)

lemma relu_shapes: "shapes_ok (layer_sizes (H relu_engine)) (W relu_engine) (B relu_engine)"
  by (simp add: shapes_ok_def relu_engine_def layer_sizes_def upt2 numeral_2_eq_2)

lemma relu_z: "tr_z (forward relu_engine 1 0) ! 0 ! 0 = 2"
  by (simp add: forward_def forward_layer_def layer_z_def relu_engine_def
      layer_sizes_def out_act_def Let_def upt1 upt2)

lemma upt3: "[0..<3] = [0, 1, 2]" by (simp add: upt_rec)

lemma deep_shapes: "shapes_ok (layer_sizes (H deep_engine)) (W deep_engine) (B deep_engine)"
  by (simp add: shapes_ok_def deep_engine_def layer_sizes_def upt3 numeral_2_eq_2)

lemma deep_forward0:
  "forward deep_engine 2 1 = \<lparr>tr_a = [[2, 1], [3, 0], [3, 1], [5]],
      tr_z = [[3, - 1], [3, 1], [5]], yhat = 5\<rparr>"
  by (simp add: forward_def forward_layer_def layer_z_def deep_engine_def layer_sizes_def
      upt1 upt2 upt3 out_act_def Let_def)

lemma deep_forward1:
  "forward deep_engine 0 1 = \<lparr>tr_a = [[0, 1], [1, 1], [3, 4], [11]],
      tr_z = [[1, 1], [3, 4], [11]], yhat = 11\<rparr>"
  by (simp add: forward_def forward_layer_def layer_z_def deep_engine_def layer_sizes_def
      upt1 upt2 upt3 out_act_def Let_def)

lemma deep_fields:
  "H deep_engine = [2, 2]" "W deep_engine = [[[1, -1], [1, 1]], [[1, -1], [2, 1]], [[1], [2]]]"
  "B deep_engine = [[0, 0], [0, 4], [0]]" "actFun deep_engine = Relu"
  "task deep_engine = Regression"
  by (simp_all add: deep_engine_def)

lemma deep_deltas:
  "sample_deltas deep_engine (2, 1) 3 = [[- 2, 0], [2, 4], [2]]"
  "sample_deltas deep_engine (0, 1) 10 = [[- 1, 4], [1, 2], [1]]"
  by (simp_all add: sample_deltas_def hidden_delta_def deep_forward0 deep_forward1 deep_fields
      layer_sizes_def upt1 upt2 eval_nat_numeral Let_def)

lemma deep_grads:
  "gW (computeBatchGrads deep_engine deep_batch deep_targets) ! 0 ! 0 ! 0 = Fin (- 2)"
  "gW (computeBatchGrads deep_engine deep_batch deep_targets) ! 1 ! 0 ! 1 = Fin 7"
  "gB (computeBatchGrads deep_engine deep_batch deep_targets) ! 2 ! 0 = Fin (3 / 2)"
  "loss (computeBatchGrads deep_engine deep_batch deep_targets) = Fin (5 / 4)"
proof -
  note ev = deep_fields layer_sizes_def deep_batch_def deep_targets_def deep_forward0
    deep_forward1 deep_deltas js_div_def sample_loss_def eval_nat_numeral
  note cv = computeBatchGrads_values[OF deep_shapes, where XY = deep_batch and yTrue = deep_targets]
  show "gW (computeBatchGrads deep_engine deep_batch deep_targets) ! 0 ! 0 ! 0 = Fin (- 2)"
    using cv(2)[of 0 0 0] by (simp add: ev)
  show "gW (computeBatchGrads deep_engine deep_batch deep_targets) ! 1 ! 0 ! 1 = Fin 7"
    using cv(2)[of 1 0 1] by (simp add: ev)
  show "gB (computeBatchGrads deep_engine deep_batch deep_targets) ! 2 ! 0 = Fin (3 / 2)"
    using cv(3)[of 2 0] by (simp add: ev)
  show "loss (computeBatchGrads deep_engine deep_batch deep_targets) = Fin (5 / 4)"
    using cv(4) by (simp add: ev)
qed

lemma nonzeros_replicate: "u \<noteq> 0 \<Longrightarrow> nonzeros (replicate n u) = n"
  by (simp add: nonzeros_def)

section \<open>The claims\<close>

text \<open>
  \<^bold>\<open>C1\<close> (backpropagation). For parameters of the shape of the layer sizes, a non-empty
  batch and one target per point, \<open>computeBatchGrads\<close> has, for every sample \<open>n\<close>, error
  signals \<open>\<delta> n\<close> with
  \<^item> at the output layer \<open>\<delta> n ! (L - 2) = [yhat - target]\<close>, for both tasks;
  \<^item> at every hidden layer \<open>l\<close> and unit \<open>i\<close>,
    \<open>\<delta>[l][i] = df(z[l][i]) * (\<Sum>j. \<delta>[l+1][j] * W[l+1][i][j])\<close>, the derivative taken at the
    pre-activation;
  and it returns \<open>gW[l][i][j] = (\<Sum>n. a\<^sub>n[l][i] * \<delta>\<^sub>n[l][j]) / N\<close>,
  \<open>gB[l][j] = (\<Sum>n. \<delta>\<^sub>n[l][j]) / N\<close> and the sum of the sample losses divided by \<open>N\<close>, the batch
  size.
\<close>

theorem computeBatchGrads_backprop:
  fixes e XY yTrue
  defines "szs \<equiv> layer_sizes (H e)"
    and "tr \<equiv> \<lambda>n. forward e (fst (XY ! n)) (snd (XY ! n))"
    and "g \<equiv> computeBatchGrads e XY yTrue"
    and "N \<equiv> length XY" and "L \<equiv> length (layer_sizes (H e))"
  assumes ok: "shapes_ok szs (W e) (B e)" and ne: "XY \<noteq> []" and len: "length yTrue = length XY"
  shows "\<exists>\<delta>. (\<forall>n<N. length (\<delta> n) = L - 1
             \<and> \<delta> n ! (L - 2) = [yhat (tr n) - yTrue ! n]
             \<and> (\<forall>l<L - 2. \<forall>i<szs ! (l + 1).
                   \<delta> n ! l ! i = act_df (actFun e) (tr_z (tr n) ! l ! i)
                      * (\<Sum>j<szs ! (l + 2). \<delta> n ! (l + 1) ! j * W e ! (l + 1) ! i ! j)))
         \<and> (\<forall>l<L - 1. \<forall>j<szs ! (l + 1).
               (\<forall>i<szs ! l. gW g ! l ! i ! j
                   = Fin ((\<Sum>n<N. tr_a (tr n) ! l ! i * \<delta> n ! l ! j) / real N))
               \<and> gB g ! l ! j = Fin ((\<Sum>n<N. \<delta> n ! l ! j) / real N))
         \<and> loss g = Fin ((\<Sum>n<N. case task e of
                 Classification \<Rightarrow> - (yTrue ! n * ln (yhat (tr n) + 1 / 10 ^ 8)
                                      + (1 - yTrue ! n) * ln (1 - yhat (tr n) + 1 / 10 ^ 8))
               | Regression \<Rightarrow> 0.5 * (yhat (tr n) - yTrue ! n) * (yhat (tr n) - yTrue ! n)) / real N)"
proof -
  let ?d = "\<lambda>n. sample_deltas e (XY ! n) (yTrue ! n)"
  have N: "N \<noteq> 0" using ne by (simp add: N_def)
  note sd = sample_deltas_spec[where e = e, folded L_def szs_def]
  note cv = computeBatchGrads_values[OF ok[unfolded szs_def], where XY = XY and yTrue = yTrue,
      folded szs_def g_def N_def L_def]
  have 1: "\<forall>n<N. length (?d n) = L - 1
             \<and> ?d n ! (L - 2) = [yhat (tr n) - yTrue ! n]
             \<and> (\<forall>l<L - 2. \<forall>i<szs ! (l + 1).
                   ?d n ! l ! i = act_df (actFun e) (tr_z (tr n) ! l ! i)
                      * (\<Sum>j<szs ! (l + 2). ?d n ! (l + 1) ! j * W e ! (l + 1) ! i ! j))"
    using sd by (simp add: tr_def)
  have 2: "\<forall>l<L - 1. \<forall>j<szs ! (l + 1).
               (\<forall>i<szs ! l. gW g ! l ! i ! j
                   = Fin ((\<Sum>n<N. tr_a (tr n) ! l ! i * ?d n ! l ! j) / real N))
               \<and> gB g ! l ! j = Fin ((\<Sum>n<N. ?d n ! l ! j) / real N)"
    using cv(2,3) N by (simp add: js_div_def tr_def L_def szs_def)
  have 3: "loss g = Fin ((\<Sum>n<N. case task e of
                 Classification \<Rightarrow> - (yTrue ! n * ln (yhat (tr n) + 1 / 10 ^ 8)
                                      + (1 - yTrue ! n) * ln (1 - yhat (tr n) + 1 / 10 ^ 8))
               | Regression \<Rightarrow> 0.5 * (yhat (tr n) - yTrue ! n) * (yhat (tr n) - yTrue ! n)) / real N)"
    using cv(4) N unfolding js_div_def sample_loss_def tr_def by simp
  show ?thesis by (rule exI[where x = ?d]) (intro conjI 1 2 3)
qed

text \<open>
  C1 at the network \<open>deep_engine\<close> with its batch of two points: the error signals of
  both samples at the output and at the two hidden layers (the inactive unit has error
  signal 0), and the gradients and the loss they determine, averaged over the two samples.
\<close>

theorem computeBatchGrads_backprop_witness:
  "shapes_ok (layer_sizes (H deep_engine)) (W deep_engine) (B deep_engine)
   \<and> deep_batch \<noteq> [] \<and> length deep_targets = length deep_batch
   \<and> (\<exists>\<delta>. \<delta> (0::nat) ! 2 = [2::real] \<and> \<delta> 0 ! 1 ! 0 = 2 \<and> \<delta> 0 ! 1 ! 1 = 4
          \<and> \<delta> 0 ! 0 ! 0 = - 2 \<and> \<delta> 0 ! 0 ! 1 = 0
          \<and> \<delta> 1 ! 2 = [1] \<and> \<delta> 1 ! 1 ! 0 = 1 \<and> \<delta> 1 ! 1 ! 1 = 2
          \<and> \<delta> 1 ! 0 ! 0 = - 1 \<and> \<delta> 1 ! 0 ! 1 = 4)
   \<and> gW (computeBatchGrads deep_engine deep_batch deep_targets) ! 0 ! 0 ! 0 = Fin (- 2)
   \<and> gW (computeBatchGrads deep_engine deep_batch deep_targets) ! 0 ! 1 ! 1 = Fin 2
   \<and> gW (computeBatchGrads deep_engine deep_batch deep_targets) ! 1 ! 0 ! 1 = Fin 7
   \<and> gW (computeBatchGrads deep_engine deep_batch deep_targets) ! 2 ! 1 ! 0 = Fin 3
   \<and> gB (computeBatchGrads deep_engine deep_batch deep_targets) ! 0 ! 0 = Fin (- 3 / 2)
   \<and> gB (computeBatchGrads deep_engine deep_batch deep_targets) ! 1 ! 1 = Fin 3
   \<and> gB (computeBatchGrads deep_engine deep_batch deep_targets) ! 2 ! 0 = Fin (3 / 2)
   \<and> loss (computeBatchGrads deep_engine deep_batch deep_targets) = Fin (5 / 4)"
proof -
  let ?g = "computeBatchGrads deep_engine deep_batch deep_targets"
  let ?tr = "\<lambda>n. forward deep_engine (fst (deep_batch ! n)) (snd (deep_batch ! n))"
  let ?szs = "layer_sizes (H deep_engine)"
  note ev = deep_fields layer_sizes_def deep_batch_def deep_targets_def deep_forward0
    deep_forward1 eval_nat_numeral
  have h2: "deep_batch \<noteq> []" and h3: "length deep_targets = length deep_batch"
    by (simp_all add: deep_batch_def deep_targets_def)
  from computeBatchGrads_backprop[OF deep_shapes h2 h3]
  have "(\<exists>\<delta>. \<delta> (0::nat) ! 2 = [2::real] \<and> \<delta> 0 ! 1 ! 0 = 2 \<and> \<delta> 0 ! 1 ! 1 = 4
          \<and> \<delta> 0 ! 0 ! 0 = - 2 \<and> \<delta> 0 ! 0 ! 1 = 0
          \<and> \<delta> 1 ! 2 = [1] \<and> \<delta> 1 ! 1 ! 0 = 1 \<and> \<delta> 1 ! 1 ! 1 = 2
          \<and> \<delta> 1 ! 0 ! 0 = - 1 \<and> \<delta> 1 ! 0 ! 1 = 4)
   \<and> gW ?g ! 0 ! 0 ! 0 = Fin (- 2) \<and> gW ?g ! 0 ! 1 ! 1 = Fin 2
   \<and> gW ?g ! 1 ! 0 ! 1 = Fin 7 \<and> gW ?g ! 2 ! 1 ! 0 = Fin 3
   \<and> gB ?g ! 0 ! 0 = Fin (- 3 / 2) \<and> gB ?g ! 1 ! 1 = Fin 3 \<and> gB ?g ! 2 ! 0 = Fin (3 / 2)
   \<and> loss ?g = Fin (5 / 4)"
  proof (elim exE conjE, goal_cases)
    case (1 \<delta>)
    have last: "\<delta> n ! (length ?szs - 2) = [yhat (?tr n) - deep_targets ! n]"
      if "n < length deep_batch" for n
      using 1(1) that by blast
    have rec: "\<delta> n ! l ! i = act_df (actFun deep_engine) (tr_z (?tr n) ! l ! i)
                  * (\<Sum>j<?szs ! (l + 2). \<delta> n ! (l + 1) ! j * W deep_engine ! (l + 1) ! i ! j)"
      if "n < length deep_batch" "l < length ?szs - 2" "i < ?szs ! (l + 1)" for n l i
      using 1(1) that by blast
    have gw: "gW ?g ! l ! i ! j
         = Fin ((\<Sum>n<length deep_batch. tr_a (?tr n) ! l ! i * \<delta> n ! l ! j) / real (length deep_batch))"
      if "l < length ?szs - 1" "j < ?szs ! (l + 1)" "i < ?szs ! l" for l i j
      using 1(2) that by blast
    have gb: "gB ?g ! l ! j = Fin ((\<Sum>n<length deep_batch. \<delta> n ! l ! j) / real (length deep_batch))"
      if "l < length ?szs - 1" "j < ?szs ! (l + 1)" for l j
      using 1(2) that by blast
    have out: "\<delta> 0 ! 2 = [2]" "\<delta> 1 ! 2 = [1]"
      using last[of 0] last[of 1] by (simp_all add: ev)
    have d01: "\<delta> 0 ! 1 ! 0 = 2" "\<delta> 0 ! 1 ! 1 = 4"
      using rec[of 0 1 0] rec[of 0 1 1] out by (simp_all add: ev)
    have d11: "\<delta> 1 ! 1 ! 0 = 1" "\<delta> 1 ! 1 ! 1 = 2"
      using rec[of 1 1 0] rec[of 1 1 1] out by (simp_all add: ev)
    have d00: "\<delta> 0 ! 0 ! 0 = - 2" "\<delta> 0 ! 0 ! 1 = 0"
      using rec[of 0 0 0] rec[of 0 0 1] d01 by (simp_all add: ev)
    have d10: "\<delta> 1 ! 0 ! 0 = - 1" "\<delta> 1 ! 0 ! 1 = 4"
      using rec[of 1 0 0] rec[of 1 0 1] d11 by (simp_all add: ev)
    have g1: "gW ?g ! 0 ! 0 ! 0 = Fin (- 2)" "gW ?g ! 0 ! 1 ! 1 = Fin 2"
      using gw[of 0 0 0] gw[of 0 1 1] d00 d10 by (simp_all add: ev)
    have g2: "gW ?g ! 1 ! 0 ! 1 = Fin 7"
      using gw[of 1 1 0] d01 d11 by (simp add: ev)
    have g3: "gW ?g ! 2 ! 1 ! 0 = Fin 3"
      using gw[of 2 0 1] out by (simp add: ev)
    have b1: "gB ?g ! 0 ! 0 = Fin (- 3 / 2)" "gB ?g ! 1 ! 1 = Fin 3" "gB ?g ! 2 ! 0 = Fin (3 / 2)"
      using gb[of 0 0] gb[of 1 1] gb[of 2 0] d00 d10 d01 d11 out by (simp_all add: ev)
    have ls: "loss ?g = Fin (5 / 4)"
      using 1(3) by (simp add: ev)
    from out d01 d11 d00 d10 g1 g2 g3 b1 ls show ?case by blast
  qed
  then show ?thesis using deep_shapes h2 h3 by blast
qed

text \<open>
  \<^bold>\<open>C2\<close> (forward pass), as amended. For parameters of the shape of the layer sizes and
  every input \<open>(x, y)\<close>, \<open>forward\<close> returns activations \<open>a\<close> and pre-activations \<open>z\<close> with
  \<open>a[0] = [x, y]\<close>, \<open>z[l][j] = B[l][j] + (\<Sum>i. a[l][i] * W[l][i][j])\<close> for every layer,
  \<open>a[l+1] = f(z[l])\<close> elementwise for every layer but the last, the sigmoid of \<open>z\<close> at the
  last layer for classification and \<open>z\<close> itself for regression, and \<open>yhat = a[L-1][0]\<close>.
  For the architecture \<open>[2,2,1]\<close> with \<open>W = [[[1,-1],[0.5,0.5]],[[1],[1]]]\<close>, \<open>B = [[0,0],[0]]\<close>,
  \<open>tanh\<close>, regression and the input \<open>(1, 0)\<close> it yields \<open>z0 = [1, -1]\<close>, the hidden
  activations \<open>[tanh 1, tanh (-1)]\<close> and \<open>yhat = tanh 1 + tanh (-1)\<close>, which is 0:
  \<open>W[0][i]\<close> is the row of the input unit \<open>i\<close>.
\<close>

theorem forward_layers:
  fixes e x y
  defines "tr \<equiv> forward e x y" and "szs \<equiv> layer_sizes (H e)"
    and "L \<equiv> length (layer_sizes (H e))"
  assumes ok: "shapes_ok szs (W e) (B e)"
  shows "length (tr_a tr) = L \<and> length (tr_z tr) = L - 1 \<and> tr_a tr ! 0 = [x, y]
    \<and> (\<forall>l<L - 1. length (tr_z tr ! l) = szs ! (l + 1)
          \<and> (\<forall>j<szs ! (l + 1).
                tr_z tr ! l ! j = B e ! l ! j + (\<Sum>i<szs ! l. tr_a tr ! l ! i * W e ! l ! i ! j)))
    \<and> (\<forall>l<L - 2. tr_a tr ! (l + 1) = map (act_f (actFun e)) (tr_z tr ! l))
    \<and> (task e = Classification \<longrightarrow>
          tr_a tr ! (L - 1) = map (\<lambda>v. 1 / (1 + exp (- v))) (tr_z tr ! (L - 2)))
    \<and> (task e = Regression \<longrightarrow> tr_a tr ! (L - 1) = tr_z tr ! (L - 2))
    \<and> yhat tr = tr_a tr ! (L - 1) ! 0
    \<and> forward ex_engine 1 0
        = \<lparr>tr_a = [[1, 0], [tanh 1, tanh (- 1)], [tanh 1 + tanh (- 1)]],
           tr_z = [[1, - 1], [tanh 1 + tanh (- 1)]], yhat = tanh 1 + tanh (- 1)\<rparr>"
proof -
  note ft = forward_trace[where e = e and x = x and y = y, folded tr_def L_def]
  have 1: "\<forall>l<L - 1. length (tr_z tr ! l) = szs ! (l + 1)
          \<and> (\<forall>j<szs ! (l + 1).
                tr_z tr ! l ! j = B e ! l ! j + (\<Sum>i<szs ! l. tr_a tr ! l ! i * W e ! l ! i ! j))"
    using ft(4) by (simp add: layer_z_length layer_z_nth szs_def)
  have 2: "\<forall>l<L - 2. tr_a tr ! (l + 1) = map (act_f (actFun e)) (tr_z tr ! l)"
    using ft(5) by simp
  have 3: "task e = Classification \<longrightarrow>
          tr_a tr ! (L - 1) = map (\<lambda>v. 1 / (1 + exp (- v))) (tr_z tr ! (L - 2))"
    using ft(6) by (simp add: out_act_def[abs_def])
  have 4: "task e = Regression \<longrightarrow> tr_a tr ! (L - 1) = tr_z tr ! (L - 2)"
    using ft(6) by (simp add: out_act_def[abs_def])
  show ?thesis by (intro conjI ft(1,2,3,7) 1 2 3 4 ex_forward)
qed

text \<open>
  C2 at the worked example: layer 0, output unit 1; the hidden layer; the identity at the
  output of a regression network.
\<close>

theorem forward_layers_witness:
  "shapes_ok (layer_sizes (H ex_engine)) (W ex_engine) (B ex_engine)
   \<and> tr_z (forward ex_engine 1 0) ! 0 ! 1
       = B ex_engine ! 0 ! 1
         + (\<Sum>i<layer_sizes (H ex_engine) ! 0. tr_a (forward ex_engine 1 0) ! 0 ! i * W ex_engine ! 0 ! i ! 1)
   \<and> tr_a (forward ex_engine 1 0) ! (0 + 1) = map (act_f (actFun ex_engine)) (tr_z (forward ex_engine 1 0) ! 0)
   \<and> tr_a (forward ex_engine 1 0) ! (length (layer_sizes (H ex_engine)) - 1)
       = tr_z (forward ex_engine 1 0) ! (length (layer_sizes (H ex_engine)) - 2)"
proof -
  have l1: "0 < length (layer_sizes (H ex_engine)) - 1" and l2: "0 < length (layer_sizes (H ex_engine)) - 2"
    and j: "1 < layer_sizes (H ex_engine) ! (0 + 1)" and r: "task ex_engine = Regression"
    by (simp_all add: ex_engine_def layer_sizes_def)
  from forward_layers[OF ex_shapes, where x = 1 and y = 0] l1 l2 j r ex_shapes show ?thesis by blast
qed

text \<open>
  C2 as stated fails at its own example: there \<open>z0\<close> is \<open>[1, -1]\<close>, not \<open>[1, 0.5]\<close>, and
  \<open>yhat\<close> is 0, not \<open>tanh 1 + tanh 0.5\<close>.
\<close>

theorem forward_example_counterexample:
  "tr_z (forward ex_engine 1 0) ! 0 = [1, - 1]
   \<and> yhat (forward ex_engine 1 0) = 0
   \<and> yhat (forward ex_engine 1 0) \<noteq> tanh 1 + tanh (1 / 2)"
proof -
  have z: "tr_z (forward ex_engine 1 0) ! 0 = [1, - 1]" and y: "yhat (forward ex_engine 1 0) = 0"
    by (simp_all add: ex_forward)
  have "0 < tanh (1::real)" "0 < tanh (1 / 2 :: real)" by simp_all
  with y have "yhat (forward ex_engine 1 0) \<noteq> tanh 1 + tanh (1 / 2)" by linarith
  with z y show ?thesis by blast
qed

text \<open>
  \<^bold>\<open>C3\<close> (update step). For parameters of the shape of the layer sizes, a non-empty batch
  and every learning rate, \<open>step\<close> stores \<open>W[l][i][j] - lr * gW[l][i][j]\<close> for every weight
  and \<open>B[l][j] - lr * gB[l][j]\<close> for every bias, where \<open>gW\<close>, \<open>gB\<close> are the gradients that
  \<open>computeBatchGrads\<close> returns at the parameters before the update, and it returns the
  loss of that same call.
\<close>

theorem step_update:
  fixes e XY yTrue lr
  defines "szs \<equiv> layer_sizes (H e)" and "L \<equiv> length (layer_sizes (H e))"
    and "g \<equiv> computeBatchGrads e XY yTrue"
  assumes ok: "shapes_ok szs (W e) (B e)" and ne: "XY \<noteq> []" and len: "length yTrue = length XY"
  shows "\<exists>W' B' \<ll>. step e XY yTrue lr = (W', B', Fin \<ll>) \<and> loss g = Fin \<ll>
      \<and> (\<forall>l<L - 1. \<forall>j<szs ! (l + 1).
            (\<forall>i<szs ! l. \<exists>gw. gW g ! l ! i ! j = Fin gw
                  \<and> W' ! l ! i ! j = Fin (W e ! l ! i ! j - lr * gw))
            \<and> (\<exists>gb. gB g ! l ! j = Fin gb \<and> B' ! l ! j = Fin (B e ! l ! j - lr * gb)))"
proof -
  obtain W' B' ls where st: "step e XY yTrue lr = (W', B', ls)" by (cases "step e XY yTrue lr")
  have N: "length XY \<noteq> 0" using ne by simp
  note sv = step_values[OF ok[unfolded szs_def] st, folded szs_def g_def L_def]
  note cv = computeBatchGrads_values[OF ok[unfolded szs_def], where XY = XY and yTrue = yTrue,
      folded szs_def g_def L_def]
  from cv(4) N obtain \<ll> where ll: "loss g = Fin \<ll>" by (simp add: js_div_def)
  have w: "\<exists>gw. gW g ! l ! i ! j = Fin gw \<and> W' ! l ! i ! j = Fin (W e ! l ! i ! j - lr * gw)"
    if "l < L - 1" "i < szs ! l" "j < szs ! (l + 1)" for l i j
    using cv(2)[OF that] sv(3)[OF that] N by (simp add: js_div_def)
  have b: "\<exists>gb. gB g ! l ! j = Fin gb \<and> B' ! l ! j = Fin (B e ! l ! j - lr * gb)"
    if "l < L - 1" "j < szs ! (l + 1)" for l j
    using cv(3)[OF that] sv(4)[OF that] N by (simp add: js_div_def)
  have "step e XY yTrue lr = (W', B', Fin \<ll>)" using st sv(2) ll by simp
  with ll w b show ?thesis by blast
qed

text \<open>
  C3 at the network \<open>deep_engine\<close> with its batch of two points and the learning rate
  \<open>0.1\<close>: the gradients are \<open>-2\<close>, 7 and \<open>3/2\<close> at the three parameters shown, which move
  from 1, \<open>-1\<close> and 0 to \<open>6/5\<close>, \<open>-17/10\<close> and \<open>-3/20\<close>; the loss returned is \<open>5/4\<close>.
\<close>

theorem step_update_witness:
  "shapes_ok (layer_sizes (H deep_engine)) (W deep_engine) (B deep_engine)
   \<and> deep_batch \<noteq> [] \<and> length deep_targets = length deep_batch
   \<and> W deep_engine ! 0 ! 0 ! 0 = 1 \<and> W deep_engine ! 1 ! 0 ! 1 = - 1 \<and> B deep_engine ! 2 ! 0 = 0
   \<and> (\<exists>W' B'. step deep_engine deep_batch deep_targets (1 / 10) = (W', B', Fin (5 / 4))
          \<and> W' ! 0 ! 0 ! 0 = Fin (6 / 5) \<and> W' ! 1 ! 0 ! 1 = Fin (- 17 / 10)
          \<and> B' ! 2 ! 0 = Fin (- 3 / 20))"
proof -
  let ?g = "computeBatchGrads deep_engine deep_batch deep_targets"
  let ?szs = "layer_sizes (H deep_engine)"
  note ev = deep_fields layer_sizes_def eval_nat_numeral
  have h2: "deep_batch \<noteq> []" and h3: "length deep_targets = length deep_batch"
    by (simp_all add: deep_batch_def deep_targets_def)
  have p: "W deep_engine ! 0 ! 0 ! 0 = 1" "W deep_engine ! 1 ! 0 ! 1 = - 1" "B deep_engine ! 2 ! 0 = 0"
    by (simp_all add: ev)
  from step_update[OF deep_shapes h2 h3, where lr = "1 / 10"]
  have "\<exists>W' B'. step deep_engine deep_batch deep_targets (1 / 10) = (W', B', Fin (5 / 4))
          \<and> W' ! 0 ! 0 ! 0 = Fin (6 / 5) \<and> W' ! 1 ! 0 ! 1 = Fin (- 17 / 10)
          \<and> B' ! 2 ! 0 = Fin (- 3 / 20)"
  proof (elim exE conjE, goal_cases)
    case (1 W' B' \<ll>)
    have w: "\<exists>gw. gW ?g ! l ! i ! j = Fin gw
                \<and> W' ! l ! i ! j = Fin (W deep_engine ! l ! i ! j - 1 / 10 * gw)"
      if "l < length ?szs - 1" "j < ?szs ! (l + 1)" "i < ?szs ! l" for l i j
      using 1(3) that by blast
    have b: "\<exists>gb. gB ?g ! l ! j = Fin gb \<and> B' ! l ! j = Fin (B deep_engine ! l ! j - 1 / 10 * gb)"
      if "l < length ?szs - 1" "j < ?szs ! (l + 1)" for l j
      using 1(3) that by blast
    have ll: "\<ll> = 5 / 4" using 1(2) deep_grads(4) by simp
    have w0: "W' ! 0 ! 0 ! 0 = Fin (6 / 5)"
      using w[of 0 0 0] deep_grads(1) by (auto simp: ev)
    have w1: "W' ! 1 ! 0 ! 1 = Fin (- 17 / 10)"
      using w[of 1 1 0] deep_grads(2) by (auto simp: ev)
    have b2: "B' ! 2 ! 0 = Fin (- 3 / 20)"
      using b[of 2 0] deep_grads(3) by (auto simp: ev)
    from 1(1) ll w0 w1 b2 show ?case by blast
  qed
  then show ?thesis using deep_shapes h2 h3 p by blast
qed

text \<open>
  \<^bold>\<open>C4\<close> (empty batch), as amended. \<open>computeBatchGrads\<close> and \<open>step\<close> raise no error on
  an empty batch: the sample loop does not run, and the division of the zero accumulators
  by the batch size 0 makes the loss and every gradient entry \<open>NaN\<close>; \<open>step\<close> then stores
  \<open>NaN\<close> in every weight and bias.
\<close>

theorem empty_batch_nan:
  "computeBatchGrads e [] yTrue
     = \<lparr>gW = map (map (map (\<lambda>_. NaN))) (W e), gB = map (map (\<lambda>_. NaN)) (B e), loss = NaN\<rparr>
   \<and> step e [] yTrue lr
     = (map (map (map (\<lambda>_. NaN))) (W e), map (map (\<lambda>_. NaN)) (B e), NaN)"
  by (simp add: empty_batch_grads empty_batch_step)

text \<open>
  C4 as stated fails: on the empty batch \<open>step\<close> returns, and the parameters it stores for
  the engine of the worked example are all \<open>NaN\<close>.
\<close>

theorem empty_batch_counterexample:
  "step ex_engine [] [] (1 / 10)
     = ([[[NaN, NaN], [NaN, NaN]], [[NaN], [NaN]]], [[NaN, NaN], [NaN]], NaN)"
  by (simp add: empty_batch_step ex_engine_def)

text \<open>
  \<^bold>\<open>C5\<close> (initialisation), as amended. Initialisation and reinitialisation raise no
  error for any sequence of hidden widths, a width of 0 included: with two non-zero
  draws of \<open>Math.random\<close> left for every parameter they return parameters of the shape of
  \<open>[2, ...h, 1]\<close>, a size sequence that always has at least two entries.
\<close>

theorem initialisation_returns:
  assumes "2 * param_count h \<le> nonzeros us"
  shows "(\<exists>e us'. useMLP h act tsk us = Some (e, us') \<and> H e = h
            \<and> shapes_ok (layer_sizes h) (W e) (B e))
       \<and> (\<exists>e' us'. reinit e0 h us = Some (e', us') \<and> shapes_ok (layer_sizes h) (W e') (B e'))
       \<and> 2 \<le> length (layer_sizes h)"
proof -
  from init_returns[OF assms] obtain Ws us1 Bs us2 where
    i: "initWeights h us = Some (Ws, us1)" "initBiases h us1 = Some (Bs, us2)" by blast
  note ok = init_shapes_ok[OF i]
  have "useMLP h act tsk us = Some (\<lparr>H = h, W = Ws, B = Bs, actFun = act, task = tsk\<rparr>, us2)"
    using i by (simp add: useMLP_def)
  moreover have "reinit e0 h us = Some (e0\<lparr>W := Ws, B := Bs\<rparr>, us2)"
    using i by (simp add: reinit_def)
  ultimately show ?thesis using ok by (simp add: layer_sizes_def)
qed

text \<open>
  C5 for one hidden layer of width 0, which has a single parameter, the output bias.
\<close>

theorem initialisation_returns_witness:
  "2 * param_count [0] \<le> nonzeros [1 / 2, 1 / 2]
   \<and> (\<exists>e us'. useMLP [0] Tanh Classification [1 / 2, 1 / 2] = Some (e, us') \<and> H e = [0]
          \<and> shapes_ok (layer_sizes [0]) (W e) (B e))"
proof -
  have h: "2 * param_count [0] \<le> nonzeros [1 / 2, 1 / 2]"
    by (simp add: param_count_def layer_sizes_def nonzeros_def upt2)
  from initialisation_returns[OF h, of Tanh Classification] h show ?thesis by blast
qed

text \<open>
  C5 as stated fails: for the hidden width 0 the initialisation returns parameter stacks,
  with empty rows and an empty layer.
\<close>

theorem zero_width_counterexample:
  "useMLP [0] Tanh Classification [1 / 2, 1 / 2]
     = Some (\<lparr>H = [0], W = [[[], []], []],
               B = [[], [sqrt (- 2 * ln (1 / 2)) * cos (2 * pi * (1 / 2)) * 0.05]],
               actFun = Tanh, task = Classification\<rparr>, [])"
  using useMLP_example by (simp add: zero_width_engine_def)

text \<open>
  \<^bold>\<open>C6\<close> (shape invariant). With two non-zero draws of \<open>Math.random\<close> left for every
  parameter, initialisation with hidden widths \<open>h\<close> returns an engine for the widths \<open>h\<close>
  whose parameters have the shape of \<open>sizes = [2, ...h, 1]\<close>: \<open>W[l]\<close> is
  \<open>sizes[l] \<times> sizes[l+1]\<close> and \<open>B[l]\<close> has length \<open>sizes[l+1]\<close>; the gradients that
  \<open>computeBatchGrads\<close> returns for that engine and the parameters that \<open>step\<close> stores have
  the same shape. Reinitialisation with widths \<open>h\<close> returns parameters of the shape of
  \<open>[2, ...h, 1]\<close>, whatever the widths were before. For every engine whose parameters have
  the shape of its layer sizes, the gradients of \<open>computeBatchGrads\<close>, which reads the
  parameters only, and the parameters that \<open>step\<close> stores have that shape.
\<close>

theorem shape_invariant:
  assumes draws: "2 * param_count h \<le> nonzeros us"
    and ok: "shapes_ok (layer_sizes (H e2)) (W e2) (B e2)"
  shows "(\<exists>e us'. useMLP h act tsk us = Some (e, us') \<and> H e = h
            \<and> shapes_ok (layer_sizes h) (W e) (B e)
            \<and> shapes_ok (layer_sizes h) (gW (computeBatchGrads e XY yTrue))
                 (gB (computeBatchGrads e XY yTrue))
            \<and> shapes_ok (layer_sizes h) (fst (step e XY yTrue lr)) (fst (snd (step e XY yTrue lr))))
       \<and> (\<exists>e1 us'. reinit e0 h us = Some (e1, us') \<and> H e1 = H e0
            \<and> shapes_ok (layer_sizes h) (W e1) (B e1))
       \<and> shapes_ok (layer_sizes (H e2)) (gW (computeBatchGrads e2 XY yTrue))
           (gB (computeBatchGrads e2 XY yTrue))
       \<and> shapes_ok (layer_sizes (H e2)) (fst (step e2 XY yTrue lr)) (fst (snd (step e2 XY yTrue lr)))"
proof -
  have pres: "shapes_ok (layer_sizes (H e)) (gW (computeBatchGrads e XY yTrue))
           (gB (computeBatchGrads e XY yTrue))
       \<and> shapes_ok (layer_sizes (H e)) (fst (step e XY yTrue lr)) (fst (snd (step e XY yTrue lr)))"
    if s: "shapes_ok (layer_sizes (H e)) (W e) (B e)" for e
  proof
    show "shapes_ok (layer_sizes (H e)) (gW (computeBatchGrads e XY yTrue))
           (gB (computeBatchGrads e XY yTrue))"
      by (rule computeBatchGrads_values(1)[OF s])
    show "shapes_ok (layer_sizes (H e)) (fst (step e XY yTrue lr)) (fst (snd (step e XY yTrue lr)))"
      by (rule step_values(1)[OF s, where XY = XY and yTrue = yTrue and lr = lr
            and ls = "snd (snd (step e XY yTrue lr))"]) simp
  qed
  from init_returns[OF draws] obtain Ws us1 Bs us2 where
    i: "initWeights h us = Some (Ws, us1)" "initBiases h us1 = Some (Bs, us2)" by blast
  note s = init_shapes_ok[OF i]
  let ?e = "\<lparr>H = h, W = Ws, B = Bs, actFun = act, task = tsk\<rparr>"
  have u: "useMLP h act tsk us = Some (?e, us2)" using i by (simp add: useMLP_def)
  have "shapes_ok (layer_sizes (H ?e)) (W ?e) (B ?e)" using s by simp
  from pres[OF this] have pe: "shapes_ok (layer_sizes h) (gW (computeBatchGrads ?e XY yTrue))
                 (gB (computeBatchGrads ?e XY yTrue))
            \<and> shapes_ok (layer_sizes h) (fst (step ?e XY yTrue lr)) (fst (snd (step ?e XY yTrue lr)))"
    by simp
  have 1: "\<exists>e us'. useMLP h act tsk us = Some (e, us') \<and> H e = h
            \<and> shapes_ok (layer_sizes h) (W e) (B e)
            \<and> shapes_ok (layer_sizes h) (gW (computeBatchGrads e XY yTrue))
                 (gB (computeBatchGrads e XY yTrue))
            \<and> shapes_ok (layer_sizes h) (fst (step e XY yTrue lr)) (fst (snd (step e XY yTrue lr)))"
    using u s pe by (intro exI[where x = ?e] exI[where x = us2]) simp
  have "reinit e0 h us = Some (e0\<lparr>W := Ws, B := Bs\<rparr>, us2)" using i by (simp add: reinit_def)
  then have 2: "\<exists>e1 us'. reinit e0 h us = Some (e1, us') \<and> H e1 = H e0
            \<and> shapes_ok (layer_sizes h) (W e1) (B e1)"
    using s by simp
  from 1 2 pres[OF ok] show ?thesis by blast
qed

text \<open>
  C6 for the initialisation and the reinitialisation with one hidden layer of width 3
  (13 parameters, 26 draws), where the shape is \<open>[[3, 3], [1, 1, 1]]\<close> for \<open>W\<close> and
  \<open>[3, 1]\<close> for \<open>B\<close>, and for the gradients and the update of \<open>deep_engine\<close>.
\<close>

theorem shape_invariant_witness:
  "2 * param_count [3] \<le> nonzeros (replicate 26 (1 / 2))
   \<and> shapes_ok (layer_sizes (H deep_engine)) (W deep_engine) (B deep_engine)
   \<and> (\<exists>e us'. useMLP [3] Tanh Classification (replicate 26 (1 / 2)) = Some (e, us') \<and> H e = [3]
          \<and> map (map length) (W e) = [[3, 3], [1, 1, 1]] \<and> map length (B e) = [3, 1]
          \<and> map (map length) (gW (computeBatchGrads e deep_batch deep_targets)) = [[3, 3], [1, 1, 1]]
          \<and> map length (gB (computeBatchGrads e deep_batch deep_targets)) = [3, 1]
          \<and> map (map length) (fst (step e deep_batch deep_targets (1 / 10))) = [[3, 3], [1, 1, 1]]
          \<and> map length (fst (snd (step e deep_batch deep_targets (1 / 10)))) = [3, 1])
   \<and> (\<exists>e1 us'. reinit deep_engine [3] (replicate 26 (1 / 2)) = Some (e1, us')
          \<and> H e1 = H deep_engine
          \<and> map (map length) (W e1) = [[3, 3], [1, 1, 1]] \<and> map length (B e1) = [3, 1])
   \<and> map (map length) (gW (computeBatchGrads deep_engine deep_batch deep_targets))
        = [[2, 2], [2, 2], [1, 1]]
   \<and> map length (gB (computeBatchGrads deep_engine deep_batch deep_targets)) = [2, 2, 1]
   \<and> map (map length) (fst (step deep_engine deep_batch deep_targets (1 / 10)))
        = [[2, 2], [2, 2], [1, 1]]
   \<and> map length (fst (snd (step deep_engine deep_batch deep_targets (1 / 10)))) = [2, 2, 1]"
proof -
  have d: "2 * param_count [3] \<le> nonzeros (replicate 26 (1 / 2))"
    by (simp add: param_count_def layer_sizes_def nonzeros_replicate upt2)
  have s3: "shapes_ok (layer_sizes [3]) Ws Bs
     \<longleftrightarrow> map (map length) Ws = [[3, 3], [1, 1, 1]] \<and> map length Bs = [3, 1]"
    for Ws :: "'a list list list" and Bs
    by (simp add: shapes_ok_def layer_sizes_def upt2 eval_nat_numeral)
  have sd: "shapes_ok (layer_sizes (H deep_engine)) Ws Bs
     \<longleftrightarrow> map (map length) Ws = [[2, 2], [2, 2], [1, 1]] \<and> map length Bs = [2, 2, 1]"
    for Ws :: "'a list list list" and Bs
    by (simp add: shapes_ok_def layer_sizes_def deep_fields upt3 eval_nat_numeral)
  note t = shape_invariant[OF d deep_shapes, of Tanh Classification deep_batch deep_targets
      "1 / 10" deep_engine, unfolded s3 sd]
  from t d deep_shapes show ?thesis by (simp only: conj_assoc simp_thms)
qed


text \<open>
  \<^bold>\<open>C8\<close> (reproducibility of \<open>xor\<close>), as amended. Two \<open>xor\<close> datasets generated with the
  same \<open>(count, noise, seed)\<close>, from whatever draws of the unseeded \<open>Math.random\<close>, have
  \<open>count\<close> points each and the same labels, point for point; with \<open>noise = 0\<close> they are the
  same dataset.
\<close>

theorem xor_seeded:
  assumes "4 * n \<le> nonzeros us1" and "4 * n \<le> nonzeros us2"
  shows "\<exists>d1 r1 d2 r2. xor_ds n noise seed us1 = Some (d1, r1) \<and> xor_ds n noise seed us2 = Some (d2, r2)
           \<and> length (points d1) = n \<and> length (points d2) = n
           \<and> map pt (points d1) = map pt (points d2)
           \<and> (noise = 0 \<longrightarrow> d1 = d2)"
proof -
  from xor_ds_returns[OF assms(1)] obtain d1 r1 where
    1: "xor_ds n noise seed us1 = Some (d1, r1)" "length (points d1) = n" by blast
  from xor_ds_returns[OF assms(2)] obtain d2 r2 where
    2: "xor_ds n noise seed us2 = Some (d2, r2)" "length (points d2) = n" by blast
  from 1(1) obtain st1 where
    l1: "for_push (xor_body noise) [0..<n] (seededRandom seed, us1) [] = Some (points d1, st1)"
    and d1: "d1 = \<lparr>ds_name = ''XOR checkerboard (classification)'', ds_task = Classification,
            points = points d1\<rparr>"
    by (auto simp: xor_ds_def split: Option.bind_splits)
  from 2(1) obtain st2 where
    l2: "for_push (xor_body noise) [0..<n] (seededRandom seed, us2) [] = Some (points d2, st2)"
    and d2: "d2 = \<lparr>ds_name = ''XOR checkerboard (classification)'', ds_task = Classification,
            points = points d2\<rparr>"
    by (auto simp: xor_ds_def split: Option.bind_splits)
  from xor_loop_seeded[OF l1 l2] have "map pt (points d1) = map pt (points d2)"
    and "noise = 0 \<longrightarrow> points d1 = points d2" by simp_all
  then have "map pt (points d1) = map pt (points d2)" "noise = 0 \<longrightarrow> d1 = d2"
    using d1 d2 by (simp, metis)
  then show ?thesis using 1 2 by blast
qed

text \<open>
  C8, as amended, for one point, \<open>noise = 0\<close>, the seed 7 and two different lists of draws.
\<close>

theorem xor_seeded_witness:
  "4 * 1 \<le> nonzeros [1 / 2, 1 / 2, 1 / 2, 1 / 2] \<and> 4 * 1 \<le> nonzeros [1 / 2, 1 / 4, 1 / 2, 1 / 2]
   \<and> (\<exists>d1 r1 d2 r2. xor_ds 1 0 7 [1 / 2, 1 / 2, 1 / 2, 1 / 2] = Some (d1, r1)
          \<and> xor_ds 1 0 7 [1 / 2, 1 / 4, 1 / 2, 1 / 2] = Some (d2, r2)
          \<and> map pt (points d1) = map pt (points d2) \<and> d1 = d2)"
proof -
  have h1: "4 * 1 \<le> nonzeros [1 / 2, 1 / 2, 1 / 2, 1 / 2]"
    and h2: "4 * 1 \<le> nonzeros [1 / 2, 1 / 4, 1 / 2, 1 / 2]" by (simp_all add: nonzeros_def)
  from xor_seeded[OF h1 h2, of 0 7] h1 h2 show ?thesis by blast
qed

text \<open>
  C8 as stated fails: with \<open>noise = 1\<close>, the same count and the same seed, two different
  draws of \<open>Math.random\<close> give different first coordinates.
\<close>

theorem xor_jitter_counterexample:
  "map_option (map px \<circ> points \<circ> fst) (xor_ds 1 1 7 [1/2, 1/2, 1/2, 1/2])
   \<noteq> map_option (map px \<circ> points \<circ> fst) (xor_ds 1 1 7 [1/2, 1/4, 1/2, 1/2])"
  by (simp add: xor_ds_def xor_body_def randn_def seed7 rng7 rng7b ln_div)

text \<open>
  \<^bold>\<open>C9\<close> (count convention), as amended. \<open>moons\<close>, \<open>circles\<close> and \<open>spirals\<close> emit
  \<open>2 * count\<close> points, \<open>count\<close> of label 0 followed by \<open>count\<close> of label 1; \<open>xor\<close> emits
  \<open>count\<close> points, every label 0 or 1; \<open>sinc\<close> and \<open>plane\<close> emit \<open>count\<close> points. (Eight
  non-zero draws of \<open>Math.random\<close> for every unit of \<open>count\<close> are enough for each of them to
  return.)
\<close>

theorem generator_counts:
  assumes "8 * n \<le> nonzeros us"
  shows "(\<exists>ds us'. moons n noise seed us = Some (ds, us') \<and> length (points ds) = 2 * n
            \<and> map pt (points ds) = replicate n 0 @ replicate n 1 \<and> ds_task ds = Classification)
       \<and> (\<exists>ds us'. circles n noise us = Some (ds, us') \<and> length (points ds) = 2 * n
            \<and> map pt (points ds) = replicate n 0 @ replicate n 1 \<and> ds_task ds = Classification)
       \<and> (\<exists>ds us'. spirals n noise us = Some (ds, us') \<and> length (points ds) = 2 * n
            \<and> map pt (points ds) = replicate n 0 @ replicate n 1 \<and> ds_task ds = Classification)
       \<and> (\<exists>ds us'. xor_ds n noise seed us = Some (ds, us') \<and> length (points ds) = n
            \<and> list_all (\<lambda>p. pt p = 0 \<or> pt p = 1) (points ds) \<and> ds_task ds = Classification)
       \<and> (\<exists>ds us'. sinc n noise seed us = Some (ds, us') \<and> length (points ds) = n
            \<and> ds_task ds = Regression)
       \<and> (\<exists>ds us'. plane n noise seed us = Some (ds, us') \<and> length (points ds) = n
            \<and> ds_task ds = Regression)"
proof -
  have 4: "4 * n \<le> nonzeros us" and 2: "2 * n \<le> nonzeros us" using assms by simp_all
  show ?thesis
    using moons_returns[OF assms] circles_returns[OF 4] spirals_returns[OF assms]
      xor_ds_returns[OF 4] sinc_returns[OF 2] plane_returns[OF 2]
    by (intro conjI)
qed

text \<open>
  C9, as amended, for \<open>count = 1\<close>.
\<close>

theorem generator_counts_witness:
  "8 * 1 \<le> nonzeros (replicate 8 (1 / 2))
   \<and> (\<exists>ds us'. moons 1 0 7 (replicate 8 (1 / 2)) = Some (ds, us') \<and> length (points ds) = 2 * 1
          \<and> map pt (points ds) = replicate 1 0 @ replicate 1 1)
   \<and> (\<exists>ds us'. xor_ds 1 0 7 (replicate 8 (1 / 2)) = Some (ds, us') \<and> length (points ds) = 1)
   \<and> (\<exists>ds us'. plane 1 0 7 (replicate 8 (1 / 2)) = Some (ds, us') \<and> length (points ds) = 1)"
proof -
  have h: "8 * 1 \<le> nonzeros (replicate 8 (1 / 2))" by (simp add: nonzeros_def)
  from generator_counts[OF h, of 0 7] h show ?thesis by blast
qed

text \<open>
  C9 as stated fails: \<open>xor\<close> with \<open>count = 1\<close> emits one point, not two.
\<close>

theorem xor_count_counterexample:
  "map_option (length \<circ> points \<circ> fst) (xor_ds 1 0 7 [1/2, 1/2, 1/2, 1/2]) = Some 1"
  by (simp add: xor_ds_def xor_body_def randn_def seed7 rng7 rng7b)

text \<open>
  \<^bold>\<open>C10\<close> (gradients and loss of a classification batch), as amended. For parameters of
  the shape of the layer sizes and a non-empty classification batch, with \<open>tanh\<close> hidden
  units or with ReLU hidden units none of whose pre-activations is 0 on the batch, the
  gradients that \<open>computeBatchGrads\<close> returns are finite numbers \<open>GW\<close>, \<open>GB\<close> such that
  the mean over the batch of the binary cross-entropy without offsets, as a function of
  the parameters, has in every direction \<open>(dW, dB)\<close> the derivative
  \<open>\<Sum> GW * dW + \<Sum> GB * dB\<close>; the gradient of the output bias is the batch mean of
  \<open>yhat - target\<close>. The returned loss is the mean of the cross-entropy with the offsets
  \<open>1e-8\<close> inside the logarithms, and for targets in \<open>{0, 1}\<close> it is strictly smaller than
  the loss without offsets, whose derivative the gradients are.
\<close>

theorem gradients_are_bce_free_derivatives:
  fixes e XY yTrue
  defines "szs \<equiv> layer_sizes (H e)" and "L \<equiv> length (layer_sizes (H e))"
    and "N \<equiv> length XY"
    and "tr \<equiv> \<lambda>n. forward e (fst (XY ! n)) (snd (XY ! n))"
    and "g \<equiv> computeBatchGrads e XY yTrue"
  assumes ok: "shapes_ok szs (W e) (B e)" and ne: "XY \<noteq> []" and len: "length yTrue = length XY"
    and cls: "task e = Classification"
    and smooth: "actFun e = Relu \<Longrightarrow>
           \<forall>n<N. \<forall>l<L - 2. \<forall>i<szs ! (l + 1). tr_z (tr n) ! l ! i \<noteq> 0"
  shows "\<exists>GW GB \<ll>.
      (\<forall>l<L - 1. \<forall>j<szs ! (l + 1).
          (\<forall>i<szs ! l. gW g ! l ! i ! j = Fin (GW l i j)) \<and> gB g ! l ! j = Fin (GB l j))
    \<and> (\<forall>dW dB. ((\<lambda>v. mean_bce_free (perturb e dW dB v) XY yTrue) has_real_derivative
          (\<Sum>l<L - 1. \<Sum>j<szs ! (l + 1).
              (\<Sum>i<szs ! l. GW l i j * dW l i j) + GB l j * dB l j)) (at 0))
    \<and> GB (L - 2) 0 = (\<Sum>n<N. yhat (tr n) - yTrue ! n) / real N
    \<and> loss g = Fin \<ll>
    \<and> \<ll> = (\<Sum>n<N. - (yTrue ! n * ln (yhat (tr n) + 1 / 10 ^ 8)
                        + (1 - yTrue ! n) * ln (1 - yhat (tr n) + 1 / 10 ^ 8))) / real N
    \<and> ((\<forall>n<N. yTrue ! n = 0 \<or> yTrue ! n = 1) \<longrightarrow> \<ll> < mean_bce_free e XY yTrue)"
proof -
  let ?ds = "\<lambda>n. sample_deltas e (XY ! n) (yTrue ! n)"
  let ?GW = "\<lambda>l i j. (\<Sum>n<N. tr_a (tr n) ! l ! i * ?ds n ! l ! j) / real N"
  let ?GB = "\<lambda>l j. (\<Sum>n<N. ?ds n ! l ! j) / real N"
  let ?ll = "(\<Sum>n<N. sample_loss Classification (yhat (tr n)) (yTrue ! n)) / real N"
  have N: "N \<noteq> 0" using ne by (simp add: N_def)
  note cv = computeBatchGrads_values[OF ok[unfolded szs_def], where XY = XY and yTrue = yTrue,
      folded szs_def g_def N_def L_def]
  have 1: "\<forall>l<L - 1. \<forall>j<szs ! (l + 1).
          (\<forall>i<szs ! l. gW g ! l ! i ! j = Fin (?GW l i j)) \<and> gB g ! l ! j = Fin (?GB l j)"
    using cv(2,3) N by (simp add: js_div_def tr_def L_def szs_def)
  have 2: "\<forall>dW dB. ((\<lambda>v. mean_bce_free (perturb e dW dB v) XY yTrue) has_real_derivative
          (\<Sum>l<L - 1. \<Sum>j<szs ! (l + 1).
              (\<Sum>i<szs ! l. ?GW l i j * dW l i j) + ?GB l j * dB l j)) (at 0)"
    using mean_bce_deriv[OF ok[unfolded szs_def] cls smooth[unfolded szs_def L_def N_def tr_def]]
    by (simp add: szs_def L_def N_def tr_def)
  have "?ds n ! (L - 2) ! 0 = yhat (tr n) - yTrue ! n" for n
    using sample_deltas_spec(2)[of e "XY ! n" "yTrue ! n"] by (simp add: L_def tr_def)
  then have 3: "?GB (L - 2) 0 = (\<Sum>n<N. yhat (tr n) - yTrue ! n) / real N" by simp
  have 4: "loss g = Fin ?ll" using cv(4) N cls by (simp add: js_div_def tr_def)
  have 5: "?ll = (\<Sum>n<N. - (yTrue ! n * ln (yhat (tr n) + 1 / 10 ^ 8)
                        + (1 - yTrue ! n) * ln (1 - yhat (tr n) + 1 / 10 ^ 8))) / real N"
    by (simp add: sample_loss_def)
  have 6: "(\<forall>n<N. yTrue ! n = 0 \<or> yTrue ! n = 1) \<longrightarrow> ?ll < mean_bce_free e XY yTrue"
    using eps_loss_mean_less[OF cls ne, of yTrue] by (simp add: N_def tr_def)
  show ?thesis
    by (rule exI[where x = ?GW], rule exI[where x = ?GB], rule exI[where x = ?ll])
       (intro conjI 1 2 3 4 5 6)
qed

text \<open>
  C10, as amended, for a ReLU network whose hidden pre-activation is 2 on the batch of the
  single point \<open>(1, 0)\<close> with target 1: the derivative with respect to the hidden bias.
\<close>

theorem gradients_are_bce_free_derivatives_witness:
  "shapes_ok (layer_sizes (H relu_engine)) (W relu_engine) (B relu_engine)
   \<and> [(1::real, 0::real)] \<noteq> [] \<and> length [1::real] = length [(1::real, 0::real)]
   \<and> task relu_engine = Classification \<and> actFun relu_engine = Relu
   \<and> tr_z (forward relu_engine 1 0) ! 0 ! 0 \<noteq> 0
   \<and> (\<exists>GB \<ll>. gB (computeBatchGrads relu_engine [(1, 0)] [1]) ! 0 ! 0 = Fin (GB (0::nat) (0::nat))
          \<and> ((\<lambda>v. mean_bce_free (perturb relu_engine (\<lambda>_ _ _. 0)
                    (\<lambda>l j. if l = 0 \<and> j = 0 then 1 else 0) v) [(1, 0)] [1])
               has_real_derivative GB 0 0) (at 0)
          \<and> loss (computeBatchGrads relu_engine [(1, 0)] [1]) = Fin \<ll>
          \<and> \<ll> < mean_bce_free relu_engine [(1, 0)] [1])"
proof -
  have h2: "[(1::real, 0::real)] \<noteq> []" and h3: "length [1::real] = length [(1::real, 0::real)]"
    by simp_all
  have cls: "task relu_engine = Classification" and rl: "actFun relu_engine = Relu"
    by (simp_all add: relu_engine_def)
  have nz: "tr_z (forward relu_engine 1 0) ! 0 ! 0 \<noteq> 0" by (simp add: relu_z)
  have sm: "\<forall>n<length [(1::real, 0::real)]. \<forall>l<length (layer_sizes (H relu_engine)) - 2.
          \<forall>i<layer_sizes (H relu_engine) ! (l + 1).
            tr_z (forward relu_engine (fst ([(1, 0)] ! n)) (snd ([(1, 0)] ! n))) ! l ! i \<noteq> 0"
    using nz by (simp add: relu_engine_def layer_sizes_def)
  have l: "0 < length (layer_sizes (H relu_engine)) - 1"
    and j: "0 < layer_sizes (H relu_engine) ! (0 + 1)"
    and L: "length (layer_sizes (H relu_engine)) - 1 = 2"
    and s0: "layer_sizes (H relu_engine) ! 0 = 2" and s1: "layer_sizes (H relu_engine) ! 1 = 1"
    and s2: "layer_sizes (H relu_engine) ! 2 = 1"
    by (simp_all add: relu_engine_def layer_sizes_def)
  have bin: "\<forall>n<length [(1::real, 0::real)]. [1::real] ! n = 0 \<or> [1::real] ! n = 1" by simp
  from gradients_are_bce_free_derivatives[OF relu_shapes h2 h3 cls sm]
  have "\<exists>GB \<ll>. gB (computeBatchGrads relu_engine [(1, 0)] [1]) ! 0 ! 0 = Fin (GB (0::nat) (0::nat))
          \<and> ((\<lambda>v. mean_bce_free (perturb relu_engine (\<lambda>_ _ _. 0)
                    (\<lambda>l j. if l = 0 \<and> j = 0 then 1 else 0) v) [(1, 0)] [1])
               has_real_derivative GB 0 0) (at 0)
          \<and> loss (computeBatchGrads relu_engine [(1, 0)] [1]) = Fin \<ll>
          \<and> \<ll> < mean_bce_free relu_engine [(1, 0)] [1]"
  proof (elim exE conjE, goal_cases)
    case (1 GW GB \<ll>)
    from 1(1)[rule_format, OF l j]
    have a: "gB (computeBatchGrads relu_engine [(1, 0)] [1]) ! 0 ! 0 = Fin (GB 0 0)" by simp
    have se: "(\<Sum>l<length (layer_sizes (H relu_engine)) - 1.
                 \<Sum>j<layer_sizes (H relu_engine) ! (l + 1).
                   (\<Sum>i<layer_sizes (H relu_engine) ! l. GW l i j * 0)
                   + GB l j * (if l = 0 \<and> j = 0 then 1 else 0)) = GB 0 0"
      by (simp add: relu_engine_def layer_sizes_def numeral_2_eq_2)
    from 1(2)[rule_format, of "\<lambda>_ _ _. 0" "\<lambda>l j. if l = 0 \<and> j = 0 then 1 else 0"]
    have b: "((\<lambda>v. mean_bce_free (perturb relu_engine (\<lambda>_ _ _. 0)
                    (\<lambda>l j. if l = 0 \<and> j = 0 then 1 else 0) v) [(1, 0)] [1])
               has_real_derivative GB 0 0) (at 0)"
      unfolding se .
    from 1(6) bin have c: "\<ll> < mean_bce_free relu_engine [(1, 0)] [1]" by blast
    from a b 1(4) c show ?case by blast
  qed
  then show ?thesis using relu_shapes h2 h3 cls rl nz by blast
qed

text \<open>
  C10 as stated fails where a ReLU pre-activation is 0: for the ReLU network with hidden
  parameters 0 and the point \<open>(0, 0)\<close> with target 1, the gradient returned for the hidden
  bias is 0, and 0 is not the derivative of the loss with respect to that bias (the loss
  has no derivative there).
\<close>

theorem relu_kink_not_differentiable:
  "gB (computeBatchGrads kink_engine [(0, 0)] [1]) ! 0 ! 0 = Fin 0
   \<and> \<not> ((\<lambda>v. mean_bce_free
            (perturb kink_engine (\<lambda>_ _ _. 0) (\<lambda>l j. if l = 0 \<and> j = 0 then 1 else 0) v)
            [(0, 0)] [1]) has_real_derivative 0) (at 0)"
proof (rule conjI[OF kink_gB], rule notI)
  let ?f = "\<lambda>v::real. ln (1 + exp (- (if v > 0 then v else 0)))"
  let ?h = "\<lambda>v::real. ln (1 + exp (- v))"
  assume "((\<lambda>v. mean_bce_free
            (perturb kink_engine (\<lambda>_ _ _. 0) (\<lambda>l j. if l = 0 \<and> j = 0 then 1 else 0) v)
            [(0, 0)] [1]) has_real_derivative 0) (at 0)"
  then have f: "(?f has_real_derivative 0) (at 0)" by (simp only: kink_loss)
  have p: "0 < 1 + exp (- (0::real))" by simp
  have h: "(?h has_real_derivative - (1 / 2)) (at 0)"
    using p by (auto intro!: derivative_eq_intros)
  have "((\<lambda>v. ?f v - ?h v) has_real_derivative 0 - (- (1 / 2))) (at 0)"
    by (rule DERIV_diff[OF f h])
  then have k: "((\<lambda>v. ?f v - ?h v) has_real_derivative 1 / 2) (at 0)" by simp
  from DERIV_pos_inc_right[OF k] obtain d where d: "0 < d"
    and inc: "\<And>s. 0 < s \<Longrightarrow> s < d \<Longrightarrow> ?f 0 - ?h 0 < ?f (0 + s) - ?h (0 + s)" by auto
  from d have "0 < d / 2" "d / 2 < d" by simp_all
  from inc[OF this] d show False by simp
qed

end
